theory Spec2Isabelle
  imports Main
begin

section \<open>Python values and records\<close>

text \<open>
  The values an attribute of a metadata record can hold: \<open>None\<close>, a boolean, a string,
  a list, a dictionary (its items in insertion order), or an opaque object that is
  always true in a condition (a date, a bound method).
\<close>

datatype pyval =
    PNone
  | PBool bool
  | PStr string
  | PList "pyval list"
  | PDict "(pyval \<times> pyval) list"
  | PObj string

text \<open>Truth value of a Python object in \<open>if x\<close> / \<open>not x\<close>.\<close>

fun truthy :: "pyval \<Rightarrow> bool" where
  "truthy PNone = False"
| "truthy (PBool b) = b"
| "truthy (PStr s) = (s \<noteq> [])"
| "truthy (PList xs) = (xs \<noteq> [])"
| "truthy (PDict kvs) = (kvs \<noteq> [])"
| "truthy (PObj _) = True"

datatype error = ValueError | TypeError | AttributeError | KeyError | UnboundLocalError

text \<open>
  A Python string is the sequence of its characters; here it is the list of the bytes of
  its UTF-8 encoding, in which a character is one byte that is not a continuation byte
  (\<open>0x80\<close> to \<open>0xBF\<close>) followed by its continuation bytes. \<open>len\<close>, iteration, indexing
  and slices of a string go by characters: \<open>utf8_chars\<close> gives the characters, each as its
  bytes.
\<close>

definition is_continuation :: "char \<Rightarrow> bool" where
  "is_continuation c = (128 \<le> (of_char c :: nat) \<and> (of_char c :: nat) < 192)"

fun utf8_chars :: "string \<Rightarrow> string list" where
  "utf8_chars [] = []"
| "utf8_chars (c # cs) =
     (case utf8_chars cs of
        [] \<Rightarrow> [[c]]
      | x # xs \<Rightarrow>
          (if list_ex is_continuation (take 1 x) then (c # x) # xs else [c] # x # xs))"

definition py_len :: "string \<Rightarrow> nat" where
  "py_len s = length (utf8_chars s)"

text \<open>The slices \<open>s[:r]\<close> and \<open>s[n:]\<close>; a negative \<open>r\<close> counts from the end.\<close>

definition py_slice_to :: "string \<Rightarrow> int \<Rightarrow> string" where
  "py_slice_to s r =
     (if 0 \<le> r then concat (take (nat r) (utf8_chars s))
      else concat (take (py_len s - nat (- r)) (utf8_chars s)))"

definition py_slice_from :: "string \<Rightarrow> nat \<Rightarrow> string" where
  "py_slice_from s n = concat (drop n (utf8_chars s))"

text \<open>
  \<open>MovieInfo\<close> (class of \<open>javsp.datatype\<close>): every instance is built by the same
  constructor and so carries the same data attributes; \<open>attr\<close> is the attribute table by
  name, \<open>PNone\<close> where the attribute is \<open>None\<close>. The two attributes that exist only
  when a translator has set them (\<open>hasattr\<close> in \<open>generate_names\<close>) are kept apart.
\<close>

record MovieInfo =
  attr :: "string \<Rightarrow> pyval"
  title_break :: "string list option"
  ori_title_break :: "string list option"

definition getattr :: "MovieInfo \<Rightarrow> string \<Rightarrow> pyval" where
  "getattr obj a = attr obj a"

definition setattr :: "MovieInfo \<Rightarrow> string \<Rightarrow> pyval \<Rightarrow> MovieInfo" where
  "setattr obj a v = obj\<lparr>attr := (attr obj)(a := v)\<rparr>"

record Movie =
  dvdid :: "string option"
  cid :: "string option"
  data_src :: string
  files :: "string list"
  hard_sub :: bool
  uncensored :: bool
  attr_str :: string
  info :: "MovieInfo option"
  save_dir :: "string option"
  basename :: "string option"
  nfo_file :: "string option"
  fanart_file :: "string option"
  poster_file :: "string option"

text \<open>\<open>movie.dvdid\<close> used as a condition: a non-empty string.\<close>

fun truthy_id :: "string option \<Rightarrow> bool" where
  "truthy_id None = False"
| "truthy_id (Some s) = (s \<noteq> [])"

fun id_val :: "string option \<Rightarrow> pyval" where
  "id_val None = PNone"
| "id_val (Some s) = PStr s"

section \<open>Configuration and the functions defined outside this module\<close>

datatype UseJavDBCover = yes | no | fallback

text \<open>
  A naming template is a format string applied to the field dictionary
  (\<open>pattern.format(**d)\<close>): a function of the dictionary.
\<close>

type_synonym template = "(string \<Rightarrow> string) \<Rightarrow> string"

record Cfg =
  selection :: "string \<Rightarrow> string list"
  retry :: nat
  remove_trailing_actor_name :: bool
  respect_site_avid :: bool
  use_javdb_cover :: UseJavDBCover
  normalize_actress_name :: bool
  required_keys :: "string list"
  max_actress_count :: nat
  default_actress :: string
  move_files :: bool
  nfo_title_pattern :: template
  output_folder_pattern :: template
  basename_pattern :: template
  nfo_basename_pattern :: template
  fanart_basename_pattern :: template
  cover_basename_pattern :: template

text \<open>
  What the Reconciler takes from outside \<open>__main__.py\<close>: the constructor
  \<open>MovieInfo(movie)\<close>, the public attribute names \<open>dir(final_info)\<close> lists,
  \<open>remove_trail_actor_in_title\<close> of \<open>javsp.func\<close>, and the module-level alias table.
\<close>

record RLib =
  new_info :: "Movie \<Rightarrow> MovieInfo"
  attrs :: "string list"
  remove_trail_actor_in_title :: "pyval \<Rightarrow> pyval \<Rightarrow> pyval"
  actressAliasMap :: "(string \<times> string list) list"

section \<open>The Reconciler: \<open>info_summary\<close>\<close>

text \<open>The two tags appended to the genre list, of four and of seven characters.\<close>

definition tag_hard_sub :: string where
  "tag_hard_sub = map char_of
     [0xE5, 0x86, 0x85, 0xE5, 0xB5, 0x8C, 0xE5, 0xAD, 0x97, 0xE5, 0xB9, 0x95 :: nat]"

definition tag_uncensored :: string where
  "tag_uncensored = map char_of
     [0xE6, 0x97, 0xA0, 0xE7, 0xA0, 0x81, 0xE6, 0xB5, 0x81, 0xE5, 0x87, 0xBA, 0x2F,
      0xE7, 0xA0, 0xB4, 0xE8, 0xA7, 0xA3 :: nat]"

text \<open>\<open>resolve_alias\<close>: the first fixed name whose alias list holds the name, else the name.\<close>

fun resolve_alias :: "(string \<times> string list) list \<Rightarrow> pyval \<Rightarrow> pyval" where
  "resolve_alias [] name = name"
| "resolve_alias ((fixedName, aliases) # rest) name =
     (if name \<in> set (map PStr aliases) then PStr fixedName else resolve_alias rest name)"

text \<open>
  A dictionary is the list of its items in insertion order, keys distinct. Storing under
  a key that exists replaces the value in place; a new key goes to the end.
\<close>

fun dict_set :: "('k \<times> 'v) list \<Rightarrow> 'k \<Rightarrow> 'v \<Rightarrow> ('k \<times> 'v) list" where
  "dict_set [] k v = [(k, v)]"
| "dict_set ((k', v') # rest) k v =
     (if k' = k then (k, v) # rest else (k', v') # dict_set rest k v)"

definition dict_of :: "('k \<times> 'v) list \<Rightarrow> ('k \<times> 'v) list" where
  "dict_of kvs = fold (\<lambda>(k, v) d. dict_set d k v) kvs []"

text \<open>Step 1: the genre of the \<open>javdb\<close> record, when it has one, is taken first.\<close>

definition seed_genre :: "(string \<times> MovieInfo) list \<Rightarrow> MovieInfo \<Rightarrow> MovieInfo" where
  "seed_genre all_info final_info =
     (case map_of all_info ''javdb'' of
        Some data \<Rightarrow>
          (if truthy (getattr data ''genre'')
           then setattr final_info ''genre'' (getattr data ''genre'')
           else final_info)
      | None \<Rightarrow> final_info)"

text \<open>Step 2: the trailing actress name is removed from every source's title.\<close>

definition strip_titles :: "Cfg \<Rightarrow> RLib \<Rightarrow> (string \<times> MovieInfo) list \<Rightarrow> (string \<times> MovieInfo) list" where
  "strip_titles cfg lib all_info =
     (if remove_trailing_actor_name cfg
      then map (\<lambda>(name, data).
             (name, setattr data ''title''
                (remove_trail_actor_in_title lib (getattr data ''title'') (getattr data ''actress''))))
             all_info
      else all_info)"

text \<open>Step 3: the walk over the sources in priority order, attribute by attribute.\<close>

record merge_st =
  final_info :: MovieInfo
  covers :: "pyval list"
  big_covers :: "pyval list"

definition absorb_attr :: "MovieInfo \<Rightarrow> string \<Rightarrow> merge_st \<Rightarrow> merge_st" where
  "absorb_attr data a st =
     (let incoming = getattr data a;
          current = getattr (final_info st) a
      in if a = ''cover'' then
           (if truthy incoming \<and> incoming \<notin> set (covers st)
            then st\<lparr>covers := covers st @ [incoming]\<rparr> else st)
         else if a = ''big_cover'' then
           (if truthy incoming \<and> incoming \<notin> set (big_covers st)
            then st\<lparr>big_covers := big_covers st @ [incoming]\<rparr> else st)
         else if a = ''uncensored'' then
           (if current = PNone \<and> incoming \<noteq> PNone
            then st\<lparr>final_info := setattr (final_info st) a incoming\<rparr> else st)
         else
           (if \<not> truthy current \<and> truthy incoming
            then st\<lparr>final_info := setattr (final_info st) a incoming\<rparr> else st))"

definition absorb_source :: "string list \<Rightarrow> MovieInfo \<Rightarrow> merge_st \<Rightarrow> merge_st" where
  "absorb_source as data st = fold (absorb_attr data) as st"

definition walk :: "string list \<Rightarrow> (string \<times> MovieInfo) list \<Rightarrow> merge_st \<Rightarrow> merge_st" where
  "walk as all_info st = fold (\<lambda>(name, data). absorb_source as data) all_info st"

text \<open>Steps 1 to 3 together: the state after the walk.\<close>

definition merged :: "Cfg \<Rightarrow> RLib \<Rightarrow> Movie \<Rightarrow> (string \<times> MovieInfo) list \<Rightarrow> merge_st" where
  "merged cfg lib movie all_info =
     walk (attrs lib) (strip_titles cfg lib all_info)
       \<lparr>final_info = seed_genre all_info (new_info lib movie), covers = [], big_covers = []\<rparr>"

text \<open>
  Step 4: the identifier the sites use. \<open>id_weight\<close> groups the names of the sources that
  have a title by the identifier they returned (\<open>setdefault(key, []).append(name)\<close>).
\<close>

fun setdefault_append :: "(pyval \<times> string list) list \<Rightarrow> pyval \<Rightarrow> string \<Rightarrow> (pyval \<times> string list) list" where
  "setdefault_append [] k name = [(k, [name])]"
| "setdefault_append ((k', names) # rest) k name =
     (if k' = k then (k', names @ [name]) # rest
      else (k', names) # setdefault_append rest k name)"

definition site_id :: "Movie \<Rightarrow> MovieInfo \<Rightarrow> pyval" where
  "site_id movie data =
     (if truthy_id (dvdid movie) then getattr data ''dvdid'' else getattr data ''cid'')"

definition id_weight :: "Movie \<Rightarrow> (string \<times> MovieInfo) list \<Rightarrow> (pyval \<times> string list) list" where
  "id_weight movie all_info =
     fold (\<lambda>(name, data) w.
             if truthy (getattr data ''title'')
             then setdefault_append w (site_id movie data) name else w)
          all_info []"

text \<open>
  \<open>sorted(items, key=lambda x: len(x[1]), reverse=True)\<close>: Python's sort is stable
  also when reversed, so this is the stable sort by descending length.
\<close>

definition sorted_by_len_desc :: "(pyval \<times> string list) list \<Rightarrow> (pyval \<times> string list) list" where
  "sorted_by_len_desc items = sort_key (\<lambda>x. - int (length (snd x))) items"

definition resolve_id :: "Cfg \<Rightarrow> Movie \<Rightarrow> (string \<times> MovieInfo) list \<Rightarrow> MovieInfo \<Rightarrow> MovieInfo" where
  "resolve_id cfg movie all_info fin =
     (if respect_site_avid cfg then
        (case sorted_by_len_desc (id_weight movie all_info) of
           [] \<Rightarrow> fin
         | (final_id, sources) # _ \<Rightarrow>
             (if truthy_id (dvdid movie)
              then setattr fin ''dvdid'' final_id
              else setattr fin ''cid'' final_id))
      else fin)"

text \<open>
  Step 5: the cover of \<open>javdb\<close> carries a watermark. \<open>list.remove\<close> deletes the first
  occurrence and raises \<open>ValueError\<close> when there is none.
\<close>

definition list_remove :: "pyval list \<Rightarrow> pyval \<Rightarrow> error + pyval list" where
  "list_remove xs x = (if x \<in> set xs then Inr (remove1 x xs) else Inl ValueError)"

definition javdb_cover :: "(string \<times> MovieInfo) list \<Rightarrow> pyval" where
  "javdb_cover all_info =
     (case map_of all_info ''javdb'' of None \<Rightarrow> PNone | Some data \<Rightarrow> getattr data ''cover'')"

definition demote_javdb :: "Cfg \<Rightarrow> (string \<times> MovieInfo) list \<Rightarrow> pyval list \<Rightarrow> error + pyval list" where
  "demote_javdb cfg all_info cs =
     (let c = javdb_cover all_info
      in if c \<noteq> PNone then
           (case use_javdb_cover cfg of
              fallback \<Rightarrow>
                (case list_remove cs c of Inl e \<Rightarrow> Inl e | Inr cs' \<Rightarrow> Inr (cs' @ [c]))
            | no \<Rightarrow> list_remove cs c
            | yes \<Rightarrow> Inr cs)
         else Inr cs)"

text \<open>Step 6: the lists are stored and their first elements become the primary covers.\<close>

definition set_covers :: "pyval list \<Rightarrow> pyval list \<Rightarrow> MovieInfo \<Rightarrow> MovieInfo" where
  "set_covers cs bcs fin =
     (let f1 = setattr (setattr fin ''covers'' (PList cs)) ''big_covers'' (PList bcs);
          f2 = (case cs of [] \<Rightarrow> f1 | c # _ \<Rightarrow> setattr f1 ''cover'' c)
      in (case bcs of [] \<Rightarrow> f2 | b # _ \<Rightarrow> setattr f2 ''big_cover'' b))"

text \<open>Step 7: the genre list; \<open>append\<close> needs a list.\<close>

definition genre_append :: "string \<Rightarrow> MovieInfo \<Rightarrow> error + MovieInfo" where
  "genre_append tag fin =
     (case getattr fin ''genre'' of
        PList gs \<Rightarrow> Inr (setattr fin ''genre'' (PList (gs @ [PStr tag])))
      | _ \<Rightarrow> Inl AttributeError)"

definition fix_genre :: "Movie \<Rightarrow> MovieInfo \<Rightarrow> error + MovieInfo" where
  "fix_genre movie fin =
     (let f1 = (if getattr fin ''genre'' = PNone then setattr fin ''genre'' (PList []) else fin)
      in case (if hard_sub movie then genre_append tag_hard_sub f1 else Inr f1) of
           Inl e \<Rightarrow> Inl e
         | Inr f2 \<Rightarrow> (if uncensored movie then genre_append tag_uncensored f2 else Inr f2))"

text \<open>
  Step 8: alias normalisation. Iterating \<open>final_info.actress\<close> needs an iterable; the
  dictionary comprehension needs \<open>items()\<close>.
\<close>

fun py_iter :: "pyval \<Rightarrow> error + pyval list" where
  "py_iter (PList xs) = Inr xs"
| "py_iter (PStr s) = Inr (map PStr (utf8_chars s))"
| "py_iter (PDict kvs) = Inr (map fst kvs)"
| "py_iter _ = Inl TypeError"

definition normalize_actress :: "Cfg \<Rightarrow> RLib \<Rightarrow> MovieInfo \<Rightarrow> error + MovieInfo" where
  "normalize_actress cfg lib fin =
     (if normalize_actress_name cfg \<and> truthy (getattr fin ''actress_pics'') then
        (case py_iter (getattr fin ''actress'') of
           Inl e \<Rightarrow> Inl e
         | Inr names \<Rightarrow>
             (let f1 = setattr fin ''actress'' (PList (map (resolve_alias (actressAliasMap lib)) names))
              in case getattr f1 ''actress_pics'' of
                   PDict kvs \<Rightarrow>
                     Inr (setattr f1 ''actress_pics''
                            (PDict (dict_of (map (\<lambda>(k, v). (resolve_alias (actressAliasMap lib) k, v)) kvs))))
                 | _ \<Rightarrow> Inl AttributeError))
      else Inr fin)"

text \<open>The fully merged record: everything before the check of the required fields.\<close>

definition summarize :: "Cfg \<Rightarrow> RLib \<Rightarrow> Movie \<Rightarrow> (string \<times> MovieInfo) list \<Rightarrow> error + MovieInfo" where
  "summarize cfg lib movie all_info =
     (let st = merged cfg lib movie all_info;
          infos = strip_titles cfg lib all_info;
          fin = resolve_id cfg movie infos (final_info st)
      in case demote_javdb cfg infos (covers st) of
           Inl e \<Rightarrow> Inl e
         | Inr cs \<Rightarrow>
             (case fix_genre movie (set_covers cs (big_covers st) fin) of
                Inl e \<Rightarrow> Inl e
              | Inr f1 \<Rightarrow> normalize_actress cfg lib f1))"



section \<open>The Orchestrator: \<open>parallel_crawler\<close>\<close>

text \<open>
  What one call \<open>parser(info)\<close> of a site's \<open>parse_data\<close> does: it returns, or it raises
  an exception of one of the classes the \<open>except\<close> clauses of \<open>wrapper\<close> tell apart, in
  the order of the clauses. \<open>AccessDenied\<close> stands for the three classes of the third
  clause (\<open>SiteBlocked\<close>, \<open>SitePermissionError\<close>, \<open>CredentialError\<close>), \<open>OtherException\<close>
  for any other \<open>Exception\<close>.
\<close>

datatype outcome =
    Done
  | MovieNotFoundError
  | MovieDuplicateError
  | AccessDenied
  | RequestException
  | OtherException

text \<open>
  A parser works on the record it is given and may behave differently from one attempt
  to the next: it maps the attempt number and the record to the outcome and the record
  as it leaves it.
\<close>

type_synonym parser = "nat \<Rightarrow> MovieInfo \<Rightarrow> outcome \<times> MovieInfo"

text \<open>
  The loop \<open>for cnt in range(retry)\<close> of \<open>wrapper\<close>. The result is the record, whether it
  was marked (\<open>setattr(info, 'success', True)\<close>), and the attempts at which the parser was
  called. Only the first four clauses \<open>break\<close>.
\<close>

fun run_attempts :: "parser \<Rightarrow> nat list \<Rightarrow> MovieInfo \<Rightarrow> MovieInfo \<times> bool \<times> nat list" where
  "run_attempts parser [] rec = (rec, False, [])"
| "run_attempts parser (cnt # rest) rec =
     (case parser cnt rec of
        (Done, rec') \<Rightarrow> (rec', True, [cnt])
      | (MovieNotFoundError, rec') \<Rightarrow> (rec', False, [cnt])
      | (MovieDuplicateError, rec') \<Rightarrow> (rec', False, [cnt])
      | (AccessDenied, rec') \<Rightarrow> (rec', False, [cnt])
      | (RequestException, rec') \<Rightarrow>
          (case run_attempts parser rest rec' of (i, ok, tr) \<Rightarrow> (i, ok, cnt # tr))
      | (OtherException, rec') \<Rightarrow>
          (case run_attempts parser rest rec' of (i, ok, tr) \<Rightarrow> (i, ok, cnt # tr)))"

definition wrapper :: "parser \<Rightarrow> MovieInfo \<Rightarrow> nat \<Rightarrow> MovieInfo \<times> bool \<times> nat list" where
  "wrapper parser rec n = run_attempts parser [0..<n] rec"

text \<open>
  What \<open>parallel_crawler\<close> takes from outside \<open>__main__.py\<close>: the two forms of the
  constructor, \<open>MovieInfo(movie)\<close> and \<open>MovieInfo(movie.dvdid)\<close>, the \<open>parse_data\<close> of each
  site module, and whether the module has a \<open>parse_data_raw\<close>.
\<close>

record OLib =
  info_of_movie :: "Movie \<Rightarrow> MovieInfo"
  info_of_id :: "string option \<Rightarrow> MovieInfo"
  parse_data :: "string \<Rightarrow> parser"
  has_parse_data_raw :: "string \<Rightarrow> bool"

text \<open>The records the workers start from, keyed by \<open>i.value\<close>.\<close>

definition start_infos :: "Cfg \<Rightarrow> OLib \<Rightarrow> Movie \<Rightarrow> (string \<times> MovieInfo) list" where
  "start_infos cfg lib movie =
     (let all_info = dict_of (map (\<lambda>i. (i, info_of_movie lib movie)) (selection cfg (data_src movie)))
      in if data_src movie = ''cid'' \<and> truthy_id (dvdid movie) then
           fold (\<lambda>i d. dict_set d i (info_of_id lib (dvdid movie))) (selection cfg ''normal'')
             (map (\<lambda>(k, i). (k, setattr i ''dvdid'' PNone)) all_info)
         else all_info)"

text \<open>
  One worker per record; the model is of a run in which every worker has ended when the
  joins return. Each entry then holds the record and its mark.
\<close>

definition crawl :: "Cfg \<Rightarrow> OLib \<Rightarrow> (string \<times> MovieInfo) list \<Rightarrow> (string \<times> MovieInfo \<times> bool) list" where
  "crawl cfg lib all_info =
     map (\<lambda>(mod_partial, rec).
            (case wrapper (parse_data lib mod_partial) rec
                    (if has_parse_data_raw lib mod_partial then 1 else retry cfg) of
               (rec', ok, tr) \<Rightarrow> (mod_partial, rec', ok)))
         all_info"

text \<open>The records as they are when all workers have joined.\<close>

definition joined :: "Cfg \<Rightarrow> OLib \<Rightarrow> Movie \<Rightarrow> (string \<times> MovieInfo \<times> bool) list" where
  "joined cfg lib movie = crawl cfg lib (start_infos cfg lib movie)"

text \<open>\<open>all_info[i]\<close> raises \<open>KeyError\<close> for a key that is not there.\<close>

fun titles_of :: "(string \<times> MovieInfo \<times> bool) list \<Rightarrow> string list \<Rightarrow> error + pyval list" where
  "titles_of all_info [] = Inr []"
| "titles_of all_info (i # rest) =
     (case map_of all_info i of
        None \<Rightarrow> Inl KeyError
      | Some (v, ok) \<Rightarrow>
          (case titles_of all_info rest of
             Inl e \<Rightarrow> Inl e
           | Inr ts \<Rightarrow> Inr (getattr v ''title'' # ts)))"

text \<open>The correction of the movie's kind after the joins.\<close>

definition correct_kind ::
  "Cfg \<Rightarrow> Movie \<Rightarrow> (string \<times> MovieInfo \<times> bool) list \<Rightarrow> error + (Movie \<times> (string \<times> MovieInfo \<times> bool) list)" where
  "correct_kind cfg movie all_info =
     (if data_src movie = ''cid'' \<and> truthy_id (dvdid movie) then
        (case titles_of all_info (selection cfg (data_src movie)) of
           Inl e \<Rightarrow> Inl e
         | Inr titles \<Rightarrow>
             (if list_ex truthy titles then
                Inr (movie\<lparr>dvdid := None\<rparr>,
                     filter (\<lambda>(k, v). k \<in> set (selection cfg ''cid'')) all_info)
              else
                Inr (movie\<lparr>data_src := ''normal'', cid := None\<rparr>,
                     filter (\<lambda>(k, v). k \<notin> set (selection cfg ''cid'')) all_info)))
      else Inr (movie, all_info))"

text \<open>The records without a mark are deleted; then \<open>k[4:]\<close> is taken of every key.\<close>

definition drop_failed :: "(string \<times> MovieInfo \<times> bool) list \<Rightarrow> (string \<times> MovieInfo) list" where
  "drop_failed all_info = map (\<lambda>(k, v, ok). (k, v)) (filter (\<lambda>(k, v, ok). ok) all_info)"

definition strip_keys :: "(string \<times> MovieInfo) list \<Rightarrow> (string \<times> MovieInfo) list" where
  "strip_keys all_info = dict_of (map (\<lambda>(k, v). (py_slice_from k 4, v)) all_info)"

definition parallel_crawler ::
  "Cfg \<Rightarrow> OLib \<Rightarrow> Movie \<Rightarrow> error + (Movie \<times> (string \<times> MovieInfo) list)" where
  "parallel_crawler cfg lib movie =
     (case correct_kind cfg movie (joined cfg lib movie) of
        Inl e \<Rightarrow> Inl e
      | Inr (movie', all_info) \<Rightarrow> Inr (movie', strip_keys (drop_failed all_info)))"

text \<open>
  For stating what the attempt loop does: the record a parser finds at attempt \<open>n\<close> when
  no earlier attempt ended the loop, the outcome of that attempt, and the outcomes after
  which \<open>wrapper\<close> leaves the loop.
\<close>

fun info_before :: "parser \<Rightarrow> MovieInfo \<Rightarrow> nat \<Rightarrow> MovieInfo" where
  "info_before parser rec 0 = rec"
| "info_before parser rec (Suc n) = snd (parser n (info_before parser rec n))"

definition outcome_at :: "parser \<Rightarrow> MovieInfo \<Rightarrow> nat \<Rightarrow> outcome" where
  "outcome_at parser rec n = fst (parser n (info_before parser rec n))"

definition breaks :: "outcome \<Rightarrow> bool" where
  "breaks out = (out \<in> {Done, MovieNotFoundError, MovieDuplicateError, AccessDenied})"

section \<open>The Namer: \<open>generate_names\<close>\<close>

text \<open>
  What \<open>generate_names\<close> takes from outside \<open>__main__.py\<close>: \<open>get_info_dic\<close> of the record
  (the dictionary that fills the templates; it supplies every key read here, and is
  modelled as a function from key to value), \<open>replace_illegal_chars\<close>, \<open>split_by_punc\<close>
  and \<open>get_remaining_path_len\<close> of \<open>javsp.func\<close>, and the string and path functions of
  the Python library.
\<close>

record NLib =
  get_info_dic :: "MovieInfo \<Rightarrow> string \<Rightarrow> string"
  replace_illegal_chars :: "string \<Rightarrow> string"
  split_by_punc :: "string \<Rightarrow> string list"
  get_remaining_path_len :: "string \<Rightarrow> int"
  str_strip :: "string \<Rightarrow> string"
  str_upper :: "string \<Rightarrow> string"
  str_replace :: "string \<Rightarrow> string \<Rightarrow> string \<Rightarrow> string"
  path_normpath :: "string \<Rightarrow> string"
  path_dirname :: "string \<Rightarrow> string"
  path_basename :: "string \<Rightarrow> string"
  path_abspath :: "string \<Rightarrow> string"
  path_join :: "string \<Rightarrow> string \<Rightarrow> string"
  path_splitext :: "string \<Rightarrow> string \<times> string"

text \<open>\<open>legalize_path\<close>: the path without its newline characters.\<close>

definition legalize_path :: "string \<Rightarrow> string" where
  "legalize_path path = filter (\<lambda>c. c \<noteq> CHR 0x0A) path"

text \<open>\<open>legalize_info\<close> rewrites four fields of the movie; the log lines are left out.\<close>

definition legalize_info :: "Movie \<Rightarrow> Movie" where
  "legalize_info movie =
     movie\<lparr>save_dir := map_option legalize_path (save_dir movie),
           nfo_file := map_option legalize_path (nfo_file movie),
           fanart_file := map_option legalize_path (fanart_file movie),
           poster_file := map_option legalize_path (poster_file movie)\<rparr>"

text \<open>\<open>sep.join(xs)\<close>.\<close>

fun join :: "string \<Rightarrow> string list \<Rightarrow> string" where
  "join sep [] = []"
| "join sep [x] = x"
| "join sep (x # y # rest) = x @ sep @ join sep (y # rest)"

text \<open>\<open>max(xs, key=len)\<close> of a non-empty sequence: the first of the longest elements.\<close>

definition max_by_len :: "string \<Rightarrow> string list \<Rightarrow> string" where
  "max_by_len x xs = fold (\<lambda>y m. if py_len m < py_len y then y else m) xs x"

text \<open>
  The value of \<open>d['actress']\<close>. The ellipsis appended to a cut list is one character,
  of three bytes. Joining needs strings; slicing and \<open>+\<close> need a list.
\<close>

definition ellipsis :: string where
  "ellipsis = map char_of [0xE2, 0x80, 0xA6 :: nat]"

fun join_strs :: "pyval list \<Rightarrow> string list \<Rightarrow> error + string" where
  "join_strs [] acc = Inr (join '','' acc)"
| "join_strs (PStr s # rest) acc = join_strs rest (acc @ [s])"
| "join_strs (_ # rest) acc = Inl TypeError"

definition actress_field :: "Cfg \<Rightarrow> MovieInfo \<Rightarrow> error + string" where
  "actress_field cfg mi =
     (let a = getattr mi ''actress''
      in if truthy a then
           (case a of
              PList xs \<Rightarrow>
                (if max_actress_count cfg < length xs
                 then join_strs (take (max_actress_count cfg) xs @ [PStr ellipsis]) []
                 else join_strs xs [])
            | PStr s \<Rightarrow>
                (if max_actress_count cfg < py_len s then Inl TypeError
                 else join_strs (map PStr (utf8_chars s)) [])
            | PDict kvs \<Rightarrow>
                (if max_actress_count cfg < length kvs then Inl TypeError
                 else join_strs (map fst kvs) [])
            | _ \<Rightarrow> Inl TypeError)
         else Inr (default_actress cfg))"

text \<open>
  What the function has at hand when the search starts: the movie with the updated
  record, the sanitised dictionary \<open>d\<close>, its copy with the attribute string appended to
  \<open>num\<close>, the two chunk lists, the first file and the longest extension. \<open>max\<close> of an
  empty sequence raises \<open>ValueError\<close>.
\<close>

record prep =
  p_movie :: Movie
  p_copyd :: "string \<Rightarrow> string"
  p_title_break :: "string list"
  p_ori_title_break :: "string list"
  p_file0 :: string
  p_longest_ext :: string

definition prepare :: "Cfg \<Rightarrow> NLib \<Rightarrow> Movie \<Rightarrow> error + prep" where
  "prepare cfg lib movie =
     (case info movie of
        None \<Rightarrow> Inl AttributeError
      | Some mi \<Rightarrow>
          (case actress_field cfg mi of
             Inl e \<Rightarrow> Inl e
           | Inr act \<Rightarrow>
               (let d0 = (get_info_dic lib mi)(''actress'' := act);
                    mi1 = setattr mi ''label'' (PStr (str_upper lib (d0 ''label'')));
                    d = (\<lambda>k. replace_illegal_chars lib (str_strip lib (d0 k)));
                    mi2 = setattr mi1 ''nfo_title'' (PStr (nfo_title_pattern cfg d));
                    tb = (case title_break mi2 of
                            Some b \<Rightarrow> b | None \<Rightarrow> split_by_punc lib (d ''title''));
                    otb = (case ori_title_break mi2 of
                             Some b \<Rightarrow> b | None \<Rightarrow> split_by_punc lib (d ''rawtitle''))
                in case files movie of
                     [] \<Rightarrow> Inl ValueError
                   | f0 # fs \<Rightarrow>
                       Inr \<lparr>p_movie = movie\<lparr>info := Some mi2\<rparr>,
                            p_copyd = d(''num'' := d ''num'' @ attr_str movie),
                            p_title_break = tb,
                            p_ori_title_break = otb,
                            p_file0 = f0,
                            p_longest_ext =
                              max_by_len (snd (path_splitext lib f0))
                                (map (\<lambda>i. snd (path_splitext lib i)) fs)\<rparr>)))"

text \<open>The two assignments to \<open>copyd\<close> at the head of the loop bodies.\<close>

definition set_rawtitle :: "NLib \<Rightarrow> prep \<Rightarrow> nat \<Rightarrow> (string \<Rightarrow> string) \<Rightarrow> (string \<Rightarrow> string)" where
  "set_rawtitle lib p raw_end copyd =
     copyd(''rawtitle'' :=
       replace_illegal_chars lib (str_strip lib (concat (take raw_end (p_ori_title_break p)))))"

definition set_title :: "NLib \<Rightarrow> prep \<Rightarrow> nat \<Rightarrow> (string \<Rightarrow> string) \<Rightarrow> (string \<Rightarrow> string)" where
  "set_title lib p sub_end copyd =
     copyd(''title'' :=
       replace_illegal_chars lib (str_strip lib (concat (take sub_end (p_title_break p)))))"

text \<open>Directory and base name: from the templates, or from the first file.\<close>

definition place :: "Cfg \<Rightarrow> NLib \<Rightarrow> prep \<Rightarrow> (string \<Rightarrow> string) \<Rightarrow> string \<times> string" where
  "place cfg lib p copyd =
     (if move_files cfg then
        (str_strip lib (path_normpath lib (output_folder_pattern cfg copyd)),
         str_strip lib (path_normpath lib (basename_pattern cfg copyd)))
      else
        (let filebasename = path_basename lib (p_file0 p);
             ext = snd (path_splitext lib filebasename)
         in (path_dirname lib (p_file0 p), str_replace lib filebasename ext [])))"

definition remaining_of :: "Cfg \<Rightarrow> NLib \<Rightarrow> prep \<Rightarrow> (string \<Rightarrow> string) \<Rightarrow> int" where
  "remaining_of cfg lib p copyd =
     (case place cfg lib p copyd of
        (dir, base) \<Rightarrow>
          get_remaining_path_len lib
            (path_abspath lib (path_join lib dir (base @ p_longest_ext p))))"

text \<open>The five assignments to the movie, followed by \<open>legalize_info\<close>.\<close>

definition assign :: "Cfg \<Rightarrow> NLib \<Rightarrow> prep \<Rightarrow> (string \<Rightarrow> string) \<Rightarrow> Movie" where
  "assign cfg lib p copyd =
     (case place cfg lib p copyd of
        (dir, base) \<Rightarrow>
          legalize_info
            ((p_movie p)\<lparr>save_dir := Some dir,
               basename := Some base,
               nfo_file := Some (path_join lib dir (nfo_basename_pattern cfg copyd @ ''.nfo'')),
               fanart_file := Some (path_join lib dir (fanart_basename_pattern cfg copyd @ ''.jpg'')),
               poster_file := Some (path_join lib dir (cover_basename_pattern cfg copyd @ ''.jpg''))\<rparr>))"

text \<open>
  The two loops. A loop either returns the movie from inside or runs to its end and
  leaves \<open>copyd\<close> and \<open>remaining\<close> as they then are; \<open>remaining\<close> has no value until the
  inner body has run once.
\<close>

datatype 's loop = Returned Movie | Fell_through 's

type_synonym search_st = "(string \<Rightarrow> string) \<times> int option"

fun inner_loop :: "Cfg \<Rightarrow> NLib \<Rightarrow> prep \<Rightarrow> nat list \<Rightarrow> search_st \<Rightarrow> search_st loop" where
  "inner_loop cfg lib p [] st = Fell_through st"
| "inner_loop cfg lib p (sub_end # rest) (copyd, rem) =
     (let copyd' = set_title lib p sub_end copyd;
          remaining = remaining_of cfg lib p copyd'
      in if 0 < remaining then Returned (assign cfg lib p copyd')
         else inner_loop cfg lib p rest (copyd', Some remaining))"

text \<open>\<open>range(n, 0, -1)\<close>.\<close>

definition countdown :: "nat \<Rightarrow> nat list" where
  "countdown n = rev [1..<Suc n]"

fun outer_loop :: "Cfg \<Rightarrow> NLib \<Rightarrow> prep \<Rightarrow> nat list \<Rightarrow> search_st \<Rightarrow> search_st loop" where
  "outer_loop cfg lib p [] st = Fell_through st"
| "outer_loop cfg lib p (raw_end # rest) (copyd, rem) =
     (case inner_loop cfg lib p (countdown (length (p_title_break p)))
             (set_rawtitle lib p raw_end copyd, rem) of
        Returned m \<Rightarrow> Returned m
      | Fell_through st \<Rightarrow> outer_loop cfg lib p rest st)"

definition search :: "Cfg \<Rightarrow> NLib \<Rightarrow> prep \<Rightarrow> search_st loop" where
  "search cfg lib p =
     outer_loop cfg lib p (countdown (length (p_ori_title_break p))) (p_copyd p, None)"

text \<open>The \<open>else\<close> branch of the outer loop; reading \<open>remaining\<close> needs it to have a value.\<close>

definition hard_cut :: "Cfg \<Rightarrow> NLib \<Rightarrow> prep \<Rightarrow> search_st \<Rightarrow> error + Movie" where
  "hard_cut cfg lib p st =
     (case st of
        (copyd, None) \<Rightarrow> Inl UnboundLocalError
      | (copyd, Some remaining) \<Rightarrow>
          (let c1 = copyd(''title'' := py_slice_to (copyd ''title'') remaining);
               c2 = c1(''rawtitle'' := py_slice_to (c1 ''rawtitle'') remaining)
           in Inr (assign cfg lib p c2)))"

definition generate_names :: "Cfg \<Rightarrow> NLib \<Rightarrow> Movie \<Rightarrow> error + Movie" where
  "generate_names cfg lib movie =
     (case prepare cfg lib movie of
        Inl e \<Rightarrow> Inl e
      | Inr p \<Rightarrow>
          (case search cfg lib p of
             Returned m \<Rightarrow> Inr m
           | Fell_through st \<Rightarrow> hard_cut cfg lib p st))"

text \<open>
  For stating what the search does: the dictionary with the raw title cut to its first
  \<open>e\<close> chunks and the title to its first \<open>s\<close> chunks, whether the path rendered from it
  fits, and the combinations in the order of the two loops.
\<close>

definition shortened :: "NLib \<Rightarrow> prep \<Rightarrow> nat \<Rightarrow> nat \<Rightarrow> (string \<Rightarrow> string)" where
  "shortened lib p e s = set_title lib p s (set_rawtitle lib p e (p_copyd p))"

definition fits :: "Cfg \<Rightarrow> NLib \<Rightarrow> prep \<Rightarrow> nat \<times> nat \<Rightarrow> bool" where
  "fits cfg lib p es = (0 < remaining_of cfg lib p (shortened lib p (fst es) (snd es)))"

definition candidates :: "prep \<Rightarrow> (nat \<times> nat) list" where
  "candidates p =
     List.product (countdown (length (p_ori_title_break p))) (countdown (length (p_title_break p)))"

text \<open>The dictionary of the \<open>else\<close> branch when both chunk lists are non-empty.\<close>

definition cut_titles :: "Cfg \<Rightarrow> NLib \<Rightarrow> prep \<Rightarrow> (string \<Rightarrow> string)" where
  "cut_titles cfg lib p =
     (let c = shortened lib p 1 1;
          r = remaining_of cfg lib p c
      in c(''title'' := py_slice_to (c ''title'') r,
           ''rawtitle'' := py_slice_to (c ''rawtitle'') r))"

text \<open>An \<open>actress\<close> attribute of the declared type: \<open>None\<close> or a list of strings.\<close>

fun is_str :: "pyval \<Rightarrow> bool" where
  "is_str (PStr s) = True"
| "is_str _ = False"

fun actress_ok :: "pyval \<Rightarrow> bool" where
  "actress_ok PNone = True"
| "actress_ok (PList xs) = list_all is_str xs"
| "actress_ok _ = False"

definition has_newline :: "string option \<Rightarrow> bool" where
  "has_newline path = (case path of None \<Rightarrow> False | Some s \<Rightarrow> CHR 0x0A \<in> set s)"

text \<open>
  For stating what the walk does. \<open>pick\<close> is the rule of the last branch of the walk for
  one attribute and one source, \<open>pick_decided\<close> the rule for \<open>uncensored\<close>; \<open>first_seen\<close>
  keeps the first occurrence of every element of a list, in order.
\<close>

definition pick :: "pyval \<Rightarrow> pyval \<Rightarrow> pyval" where
  "pick current incoming = (if \<not> truthy current \<and> truthy incoming then incoming else current)"

definition pick_decided :: "pyval \<Rightarrow> pyval \<Rightarrow> pyval" where
  "pick_decided current incoming = (if current = PNone \<and> incoming \<noteq> PNone then incoming else current)"

fun first_seen :: "'a list \<Rightarrow> 'a list" where
  "first_seen [] = []"
| "first_seen (x # xs) = x # removeAll x (first_seen xs)"

text \<open>The final record when the walk starts, and the records it walks over.\<close>

definition seeded :: "RLib \<Rightarrow> Movie \<Rightarrow> (string \<times> MovieInfo) list \<Rightarrow> MovieInfo" where
  "seeded lib movie all_info = seed_genre all_info (new_info lib movie)"

text \<open>The values of one attribute over the sources, in priority order.\<close>

definition values_of :: "string \<Rightarrow> (string \<times> MovieInfo) list \<Rightarrow> pyval list" where
  "values_of a all_info = map (\<lambda>(name, data). getattr data a) all_info"

text \<open>
  The identifiers returned by the sources that have a title, in priority order: what
  \<open>id_weight\<close> counts.
\<close>

definition titled_ids :: "Movie \<Rightarrow> (string \<times> MovieInfo) list \<Rightarrow> pyval list" where
  "titled_ids movie all_info =
     map (\<lambda>(name, data). site_id movie data)
       (filter (\<lambda>(name, data). truthy (getattr data ''title'')) all_info)"

definition id_field :: "Movie \<Rightarrow> string" where
  "id_field movie = (if truthy_id (dvdid movie) then ''dvdid'' else ''cid'')"

section \<open>Example inputs\<close>

definition blank :: MovieInfo where
  "blank = \<lparr>attr = (\<lambda>_. PNone), title_break = None, ori_title_break = None\<rparr>"

definition src :: "(string \<times> pyval) list \<Rightarrow> MovieInfo" where
  "src kvs = fold (\<lambda>(k, v) obj. setattr obj k v) kvs blank"

definition ex_lib :: RLib where
  "ex_lib = \<lparr>new_info = (\<lambda>m. setattr (setattr blank ''dvdid'' (id_val (dvdid m))) ''cid'' (id_val (cid m))),
     attrs = [''actress'', ''big_cover'', ''cid'', ''cover'', ''dvdid'', ''genre'', ''title'', ''uncensored''],
     remove_trail_actor_in_title = (\<lambda>t a. t),
     actressAliasMap = []\<rparr>"

definition ex_cfg :: Cfg where
  "ex_cfg = \<lparr>selection = (\<lambda>k. if k = ''normal'' then [''javbus'', ''javdb'']
                             else if k = ''cid'' then [''fanza''] else []),
     retry = 3, remove_trailing_actor_name = True, respect_site_avid = True,
     use_javdb_cover = fallback, normalize_actress_name = True,
     required_keys = [''cover'', ''title''], max_actress_count = 10, default_actress = ''unknown'',
     move_files = True,
     nfo_title_pattern = (\<lambda>d. d ''num'' @ '' '' @ d ''title''),
     output_folder_pattern = (\<lambda>d. ''out/'' @ d ''actress'' @ ''/['' @ d ''num'' @ ''] '' @ d ''title''),
     basename_pattern = (\<lambda>d. d ''num''),
     nfo_basename_pattern = (\<lambda>d. d ''num''),
     fanart_basename_pattern = (\<lambda>d. ''fanart''),
     cover_basename_pattern = (\<lambda>d. ''poster'')\<rparr>"

definition ex_movie :: Movie where
  "ex_movie = \<lparr>dvdid = Some ''ABC-123'', cid = None, data_src = ''normal'',
     files = [''/v/ABC-123.mp4''], hard_sub = False, uncensored = False, attr_str = [],
     info = None, save_dir = None, basename = None, nfo_file = None, fanart_file = None,
     poster_file = None\<rparr>"

definition ex_all :: "(string \<times> MovieInfo) list" where
  "ex_all =
     [(''javbus'', src [(''dvdid'', PStr ''ABC-123''), (''title'', PStr ''Foo''),
                        (''genre'', PList [PStr ''a''])]),
      (''javdb'', src [(''dvdid'', PStr ''ABC-123''), (''title'', PStr ''Bar''),
                       (''cover'', PStr ''http://x/1.jpg''), (''genre'', PList [PStr ''b''])])]"

definition flaky_parser :: parser where
  "flaky_parser cnt rec =
     (if cnt = 0 then (OtherException, rec) else (Done, setattr rec ''title'' (PStr ''T'')))"

definition ex_olib :: OLib where
  "ex_olib = \<lparr>info_of_movie = new_info ex_lib,
     info_of_id = (\<lambda>i. setattr blank ''dvdid'' (id_val i)),
     parse_data = (\<lambda>name cnt rec. (Done, setattr rec ''title'' (PStr (''T-'' @ name)))),
     has_parse_data_raw = (\<lambda>name. False)\<rparr>"

definition ex_cid_movie :: Movie where
  "ex_cid_movie = ex_movie\<lparr>cid := Some ''abc00123'', data_src := ''cid''\<rparr>"

definition strip_spaces :: "string \<Rightarrow> string" where
  "strip_spaces s = rev (dropWhile (\<lambda>c. c = CHR '' '') (rev (dropWhile (\<lambda>c. c = CHR '' '') s)))"

definition str_of :: "pyval \<Rightarrow> string" where
  "str_of v = (case v of PStr s \<Rightarrow> s | _ \<Rightarrow> [])"

text \<open>A library for the examples: paths are joined with a slash and may be 48 characters long.\<close>

definition ex_nlib :: NLib where
  "ex_nlib = \<lparr>get_info_dic = (\<lambda>mi k.
        if k = ''num'' then str_of (getattr mi ''dvdid'')
        else if k = ''rawtitle'' then str_of (getattr mi ''ori_title'')
        else if k = ''label'' then ''ABC''
        else str_of (getattr mi k)),
     replace_illegal_chars = map (\<lambda>c. if c = CHR ''/'' then CHR ''_'' else c),
     split_by_punc = (\<lambda>s. [s]),
     get_remaining_path_len = (\<lambda>path. 48 - int (length path)),
     str_strip = strip_spaces,
     str_upper = (\<lambda>s. s),
     str_replace = (\<lambda>s old new. s),
     path_normpath = (\<lambda>s. s),
     path_dirname = (\<lambda>s. ''/v''),
     path_basename = (\<lambda>s. drop 3 s),
     path_abspath = (\<lambda>s. ''/r/'' @ s),
     path_join = (\<lambda>a b. a @ ''/'' @ b),
     path_splitext = (\<lambda>s. (take (length s - 4) s, drop (length s - 4) s))\<rparr>"

definition ex_record :: MovieInfo where
  "ex_record = src [(''dvdid'', PStr ''ABC-123''), (''title'', PStr ''Foo, Bar, Baz''),
                    (''ori_title'', PStr ''Raw one, Raw two'')]"

definition ex_named :: Movie where
  "ex_named = ex_movie\<lparr>info := Some (ex_record\<lparr>title_break := Some [''Foo, '', ''Bar, '', ''Baz''],
                                      ori_title_break := Some [''Raw one, '', ''Raw two'']\<rparr>)\<rparr>"

definition ex_no_chunks :: Movie where
  "ex_no_chunks = ex_movie\<lparr>info := Some (ex_record\<lparr>title_break := Some []\<rparr>)\<rparr>"

definition ex_deep_cfg :: Cfg where
  "ex_deep_cfg = ex_cfg\<lparr>output_folder_pattern :=
     (\<lambda>d. ''a-very-long-output-folder-name/['' @ d ''num'' @ ''] '' @ d ''title'' @ '' '' @ d ''rawtitle'')\<rparr>"

definition ex_newline_cfg :: Cfg where
  "ex_newline_cfg = ex_cfg\<lparr>output_folder_pattern := (\<lambda>d. ''out/'' @ d ''title''),
                           basename_pattern := (\<lambda>d. d ''num'' @ '' '' @ d ''title'')\<rparr>"

definition ex_newline :: Movie where
  "ex_newline = ex_movie\<lparr>info := Some (src [(''dvdid'', PStr ''ABC-123''),
                   (''title'', PStr (''Foo'' @ [CHR 0x0A] @ ''Bar''))])\<rparr>"

definition ex_covers :: "(string \<times> MovieInfo) list" where
  "ex_covers =
     [(''javdb'', src [(''title'', PStr ''Bar''), (''cover'', PStr ''http://x/db.jpg'')]),
      (''javbus'', src [(''title'', PStr ''Foo''), (''cover'', PStr ''http://x/bus.jpg''),
                        (''big_cover'', PStr ''http://x/big.jpg'')])]"

definition ex_ids :: "(string \<times> MovieInfo) list" where
  "ex_ids =
     [(''javbus'', src [(''dvdid'', PStr ''ABC-123''), (''title'', PStr ''Foo'')]),
      (''javdb'', src [(''dvdid'', PStr ''ABC-124''), (''title'', PStr ''Bar''),
                       (''cover'', PStr ''http://x/1.jpg'')]),
      (''javlib'', src [(''dvdid'', PStr ''ABC-125'')]),
      (''avsox'', src [(''dvdid'', PStr ''ABC-124''), (''title'', PStr ''Baz'')])]"

section \<open>Properties of strings\<close>

lemma concat_utf8_chars: "concat (utf8_chars s) = s"
proof (induction s)
  case Nil
  show ?case by simp
next
  case (Cons c cs)
  then show ?case by (cases "utf8_chars cs") auto
qed

text \<open>In a string of one-byte characters the characters are the bytes.\<close>

lemma utf8_chars_single:
  "list_all (\<lambda>c. \<not> is_continuation c) s \<Longrightarrow> utf8_chars s = map (\<lambda>c. [c]) s"
proof (induction s)
  case Nil
  show ?case by simp
next
  case (Cons c cs)
  then show ?case by (cases cs) simp_all
qed

lemma concat_singletons: "concat (map (\<lambda>c. [c]) xs) = xs"
  by (induction xs) simp_all

lemma py_len_single: "list_all (\<lambda>c. \<not> is_continuation c) s \<Longrightarrow> py_len s = length s"
  by (simp add: py_len_def utf8_chars_single)

lemma py_slice_to_single:
  "list_all (\<lambda>c. \<not> is_continuation c) s \<Longrightarrow>
   py_slice_to s r = (if 0 \<le> r then take (nat r) s else take (length s - nat (- r)) s)"
  by (simp add: py_slice_to_def py_len_def utf8_chars_single concat_singletons take_map)

lemma py_slice_from_single:
  "list_all (\<lambda>c. \<not> is_continuation c) s \<Longrightarrow> py_slice_from s n = drop n s"
  by (simp add: py_slice_from_def utf8_chars_single concat_singletons drop_map)

text \<open>
  A slice goes by characters: the tag of four characters has twelve bytes, and cutting
  one character from its end leaves nine of them; cutting ten characters from the tag of
  seven characters leaves nothing.
\<close>

lemma py_slice_to_characters:
  "length tag_hard_sub = 12 \<and> py_len tag_hard_sub = 4
   \<and> py_slice_to tag_hard_sub (- 1) = take 9 tag_hard_sub
   \<and> py_len tag_uncensored = 7 \<and> py_slice_to tag_uncensored (- 10) = []"
  by (simp add: tag_hard_sub_def tag_uncensored_def py_slice_to_def py_len_def is_continuation_def)

lemmas single_byte = py_len_single py_slice_to_single py_slice_from_single is_continuation_def

section \<open>Properties of the Reconciler\<close>

lemmas reconciler_defs = summarize_def merged_def walk_def absorb_source_def absorb_attr_def
  strip_titles_def seed_genre_def resolve_id_def id_weight_def site_id_def sorted_by_len_desc_def
  demote_javdb_def javdb_cover_def list_remove_def set_covers_def fix_genre_def genre_append_def
  normalize_actress_def getattr_def setattr_def

lemmas example_defs = ex_cfg_def ex_lib_def ex_movie_def ex_all_def src_def blank_def


subsection \<open>The check of the required fields\<close>




subsection \<open>The walk, attribute by attribute\<close>

lemma absorb_attr_other:
  "b \<noteq> a \<Longrightarrow> getattr (final_info (absorb_attr data b st)) a = getattr (final_info st) a"
  by (auto simp: absorb_attr_def Let_def getattr_def setattr_def)

lemma absorb_attr_same:
  "a \<noteq> ''cover'' \<Longrightarrow> a \<noteq> ''big_cover'' \<Longrightarrow> a \<noteq> ''uncensored'' \<Longrightarrow>
   getattr (final_info (absorb_attr data a st)) a = pick (getattr (final_info st) a) (getattr data a)"
  by (simp add: absorb_attr_def Let_def getattr_def setattr_def pick_def)

lemma absorb_attr_uncensored:
  "getattr (final_info (absorb_attr data ''uncensored'' st)) ''uncensored''
     = pick_decided (getattr (final_info st) ''uncensored'') (getattr data ''uncensored'')"
  by (simp add: absorb_attr_def Let_def getattr_def setattr_def pick_decided_def)

lemma pick_idem: "pick (pick c i) i = pick c i"
  by (simp add: pick_def)

lemma pick_decided_idem: "pick_decided (pick_decided c i) i = pick_decided c i"
  by (simp add: pick_decided_def)

lemma absorb_source_field:
  assumes "a \<noteq> ''cover''" "a \<noteq> ''big_cover''" "a \<noteq> ''uncensored''"
  shows "getattr (final_info (absorb_source as data st)) a
           = (if a \<in> set as then pick (getattr (final_info st) a) (getattr data a)
              else getattr (final_info st) a)"
  unfolding absorb_source_def
proof (induction as arbitrary: st)
  case Nil
  show ?case by simp
next
  case (Cons b as)
  show ?case
  proof (cases "b = a")
    case True
    then show ?thesis
      by (simp add: Cons.IH absorb_attr_same[OF assms] pick_idem)
  next
    case False
    then show ?thesis
      using absorb_attr_other[OF False] by (auto simp: Cons.IH)
  qed
qed

lemma absorb_source_uncensored:
  "getattr (final_info (absorb_source as data st)) ''uncensored''
     = (if ''uncensored'' \<in> set as
        then pick_decided (getattr (final_info st) ''uncensored'') (getattr data ''uncensored'')
        else getattr (final_info st) ''uncensored'')"
  unfolding absorb_source_def
proof (induction as arbitrary: st)
  case Nil
  show ?case by simp
next
  case (Cons b as)
  show ?case
  proof (cases "b = ''uncensored''")
    case True
    then show ?thesis
      by (simp add: Cons.IH absorb_attr_uncensored pick_decided_idem)
  next
    case False
    then show ?thesis
      using absorb_attr_other[OF False] by (auto simp: Cons.IH)
  qed
qed

lemma walk_field:
  assumes "a \<in> set as" "a \<noteq> ''cover''" "a \<noteq> ''big_cover''" "a \<noteq> ''uncensored''"
  shows "getattr (final_info (walk as infos st)) a
           = (if truthy (getattr (final_info st) a) then getattr (final_info st) a
              else case find truthy (values_of a infos) of
                     Some v \<Rightarrow> v
                   | None \<Rightarrow> getattr (final_info st) a)"
  unfolding walk_def values_of_def
proof (induction infos arbitrary: st)
  case Nil
  show ?case by simp
next
  case (Cons nd infos)
  obtain name data where nd: "nd = (name, data)" by (cases nd)
  show ?case
    unfolding nd
    by (auto simp: Cons.IH absorb_source_field[OF assms(2-4)] assms(1) pick_def split: option.split)
qed

lemma walk_uncensored:
  assumes "''uncensored'' \<in> set as"
  shows "getattr (final_info (walk as infos st)) ''uncensored''
           = (if getattr (final_info st) ''uncensored'' \<noteq> PNone
              then getattr (final_info st) ''uncensored''
              else case find (\<lambda>v. v \<noteq> PNone) (values_of ''uncensored'' infos) of
                     Some v \<Rightarrow> v
                   | None \<Rightarrow> PNone)"
  unfolding walk_def values_of_def
proof (induction infos arbitrary: st)
  case Nil
  show ?case by simp
next
  case (Cons nd infos)
  obtain name data where nd: "nd = (name, data)" by (cases nd)
  show ?case
    unfolding nd
    by (auto simp: Cons.IH absorb_source_uncensored assms pick_decided_def split: option.split)
qed

subsection \<open>The steps after the walk leave the other attributes alone\<close>

lemma genre_append_other:
  "genre_append tag f = Inr f' \<Longrightarrow> a \<noteq> ''genre'' \<Longrightarrow> getattr f' a = getattr f a"
  by (auto simp: genre_append_def getattr_def setattr_def split: pyval.splits)

lemma fix_genre_other:
  "fix_genre movie f = Inr f' \<Longrightarrow> a \<noteq> ''genre'' \<Longrightarrow> getattr f' a = getattr f a"
  by (auto simp: fix_genre_def Let_def getattr_def setattr_def
           split: if_splits sum.splits dest!: genre_append_other[where a = a])

lemma normalize_actress_other:
  "normalize_actress cfg lib f = Inr f' \<Longrightarrow> a \<noteq> ''actress'' \<Longrightarrow> a \<noteq> ''actress_pics'' \<Longrightarrow>
   getattr f' a = getattr f a"
  by (auto simp: normalize_actress_def Let_def getattr_def setattr_def
           split: if_splits sum.splits pyval.splits)

lemma resolve_id_other:
  "a \<noteq> ''dvdid'' \<Longrightarrow> a \<noteq> ''cid'' \<Longrightarrow> getattr (resolve_id cfg movie infos f) a = getattr f a"
  by (auto simp: resolve_id_def getattr_def setattr_def split: list.splits)

lemma set_covers_fields:
  "getattr (set_covers cs bcs f) ''covers'' = PList cs"
  "getattr (set_covers cs bcs f) ''big_covers'' = PList bcs"
  "cs \<noteq> [] \<Longrightarrow> getattr (set_covers cs bcs f) ''cover'' = hd cs"
  "bcs \<noteq> [] \<Longrightarrow> getattr (set_covers cs bcs f) ''big_cover'' = hd bcs"
  by (auto simp: set_covers_def Let_def getattr_def setattr_def split: list.splits)

lemma set_covers_other:
  "a \<notin> {''covers'', ''big_covers'', ''cover'', ''big_cover''} \<Longrightarrow>
   getattr (set_covers cs bcs f) a = getattr f a"
  by (auto simp: set_covers_def Let_def getattr_def setattr_def split: list.splits)

text \<open>How \<open>summarize\<close> is put together, for the proofs about single fields.\<close>

lemma summarize_Inr:
  assumes "summarize cfg lib movie all_info = Inr fin"
  obtains cs f1 where
    "demote_javdb cfg (strip_titles cfg lib all_info) (covers (merged cfg lib movie all_info)) = Inr cs"
    "fix_genre movie
       (set_covers cs (big_covers (merged cfg lib movie all_info))
          (resolve_id cfg movie (strip_titles cfg lib all_info)
             (final_info (merged cfg lib movie all_info)))) = Inr f1"
    "normalize_actress cfg lib f1 = Inr fin"
  using assms by (auto simp: summarize_def Let_def split: sum.splits)

text \<open>
  C1, as the code has it. Let \<open>a\<close> be a public attribute other than \<open>cover\<close>, \<open>big_cover\<close>
  and \<open>uncensored\<close>. If \<open>a\<close> is already non-empty in the final record when the walk starts
  (the identifier taken from the movie, the genre taken from \<open>javdb\<close>), the walk keeps that
  value; otherwise the walk leaves in it the value of the first source, in priority order
  and after the titles have been stripped, whose value for \<open>a\<close> is non-empty, and nothing
  changes when there is none. For \<open>uncensored\<close> the same holds with "not \<open>None\<close>" in place
  of "non-empty". The steps after the walk rewrite the identifier, the genre, the
  actresses and the covers only: every other attribute has in the merged record the value
  the walk left.
\<close>

theorem merged_first_non_empty:
  "(a \<in> set (attrs lib) \<and> a \<noteq> ''cover'' \<and> a \<noteq> ''big_cover'' \<and> a \<noteq> ''uncensored'' \<longrightarrow>
      getattr (final_info (merged cfg lib movie all_info)) a
        = (if truthy (getattr (seeded lib movie all_info) a)
           then getattr (seeded lib movie all_info) a
           else case find truthy (values_of a (strip_titles cfg lib all_info)) of
                  Some v \<Rightarrow> v
                | None \<Rightarrow> getattr (seeded lib movie all_info) a))
   \<and> (''uncensored'' \<in> set (attrs lib) \<longrightarrow>
      getattr (final_info (merged cfg lib movie all_info)) ''uncensored''
        = (if getattr (seeded lib movie all_info) ''uncensored'' \<noteq> PNone
           then getattr (seeded lib movie all_info) ''uncensored''
           else case find (\<lambda>v. v \<noteq> PNone) (values_of ''uncensored'' (strip_titles cfg lib all_info)) of
                  Some v \<Rightarrow> v
                | None \<Rightarrow> PNone))
   \<and> (summarize cfg lib movie all_info = Inr fin
        \<and> a \<notin> {''dvdid'', ''cid'', ''genre'', ''actress'', ''actress_pics'',
                 ''covers'', ''big_covers'', ''cover'', ''big_cover''} \<longrightarrow>
      getattr fin a = getattr (final_info (merged cfg lib movie all_info)) a)"
proof (intro conjI impI)
  assume "a \<in> set (attrs lib) \<and> a \<noteq> ''cover'' \<and> a \<noteq> ''big_cover'' \<and> a \<noteq> ''uncensored''"
  then show "getattr (final_info (merged cfg lib movie all_info)) a
        = (if truthy (getattr (seeded lib movie all_info) a)
           then getattr (seeded lib movie all_info) a
           else case find truthy (values_of a (strip_titles cfg lib all_info)) of
                  Some v \<Rightarrow> v
                | None \<Rightarrow> getattr (seeded lib movie all_info) a)"
    unfolding merged_def seeded_def by (auto simp: walk_field split: option.split)
next
  assume "''uncensored'' \<in> set (attrs lib)"
  then show "getattr (final_info (merged cfg lib movie all_info)) ''uncensored''
        = (if getattr (seeded lib movie all_info) ''uncensored'' \<noteq> PNone
           then getattr (seeded lib movie all_info) ''uncensored''
           else case find (\<lambda>v. v \<noteq> PNone) (values_of ''uncensored'' (strip_titles cfg lib all_info)) of
                  Some v \<Rightarrow> v
                | None \<Rightarrow> PNone)"
    unfolding merged_def seeded_def by (auto simp: walk_uncensored split: option.split)
next
  assume h: "summarize cfg lib movie all_info = Inr fin
        \<and> a \<notin> {''dvdid'', ''cid'', ''genre'', ''actress'', ''actress_pics'',
                 ''covers'', ''big_covers'', ''cover'', ''big_cover''}"
  then obtain cs f1 where
    g: "fix_genre movie
       (set_covers cs (big_covers (merged cfg lib movie all_info))
          (resolve_id cfg movie (strip_titles cfg lib all_info)
             (final_info (merged cfg lib movie all_info)))) = Inr f1"
    and n: "normalize_actress cfg lib f1 = Inr fin"
    using summarize_Inr[of cfg lib movie all_info fin] by blast
  have a: "a \<noteq> ''genre''" "a \<noteq> ''actress''" "a \<noteq> ''actress_pics''" "a \<noteq> ''dvdid''" "a \<noteq> ''cid''"
    "a \<notin> {''covers'', ''big_covers'', ''cover'', ''big_cover''}"
    using h by auto
  show "getattr fin a = getattr (final_info (merged cfg lib movie all_info)) a"
    using normalize_actress_other[OF n a(2,3)] fix_genre_other[OF g a(1)]
      set_covers_other[OF a(6)] resolve_id_other[OF a(4,5)]
    by simp
qed

theorem merged_first_non_empty_witness:
  "''title'' \<in> set (attrs ex_lib)
   \<and> \<not> truthy (getattr (seeded ex_lib ex_movie ex_all) ''title'')
   \<and> find truthy (values_of ''title'' (strip_titles ex_cfg ex_lib ex_all)) = Some (PStr ''Foo'')
   \<and> getattr (final_info (merged ex_cfg ex_lib ex_movie ex_all)) ''title'' = PStr ''Foo''
   \<and> ''uncensored'' \<in> set (attrs ex_lib)
   \<and> getattr (final_info (merged ex_cfg ex_lib ex_movie ex_all)) ''uncensored'' = PNone
   \<and> summarize ex_cfg ex_lib ex_movie ex_all = Inr (projr (summarize ex_cfg ex_lib ex_movie ex_all))
   \<and> getattr (projr (summarize ex_cfg ex_lib ex_movie ex_all)) ''title'' = PStr ''Foo''"
proof -
  have 1: "''title'' \<in> set (attrs ex_lib)" "''uncensored'' \<in> set (attrs ex_lib)"
    by (simp_all add: ex_lib_def)
  have 2: "\<not> truthy (getattr (seeded ex_lib ex_movie ex_all) ''title'')"
    by (simp add: seeded_def reconciler_defs example_defs)
  have 3: "find truthy (values_of ''title'' (strip_titles ex_cfg ex_lib ex_all)) = Some (PStr ''Foo'')"
    by (simp add: values_of_def reconciler_defs example_defs)
  have 4: "getattr (seeded ex_lib ex_movie ex_all) ''uncensored'' = PNone"
    by (simp add: seeded_def reconciler_defs example_defs)
  have 5: "find (\<lambda>v. v \<noteq> PNone) (values_of ''uncensored'' (strip_titles ex_cfg ex_lib ex_all)) = None"
    by (simp add: values_of_def reconciler_defs example_defs)
  have 6: "summarize ex_cfg ex_lib ex_movie ex_all = Inr (projr (summarize ex_cfg ex_lib ex_movie ex_all))"
    by (simp add: reconciler_defs example_defs)
  from merged_first_non_empty[of "''title''" ex_lib ex_cfg ex_movie ex_all
         "projr (summarize ex_cfg ex_lib ex_movie ex_all)"] 1 2 3 4 5 6
  show ?thesis by simp
qed

text \<open>
  The claim as the specification words it fails for the genre: the first source in
  priority order, \<open>javbus\<close>, has the non-empty genre list \<open>['a']\<close>, and the merged record
  has the list \<open>['b']\<close> of \<open>javdb\<close>.
\<close>

theorem genre_not_from_first_source:
  "map fst ex_all = [''javbus'', ''javdb'']
   \<and> values_of ''genre'' ex_all = [PList [PStr ''a''], PList [PStr ''b'']]
   \<and> map_sum id (\<lambda>fin. getattr fin ''genre'') (summarize ex_cfg ex_lib ex_movie ex_all)
        = Inr (PList [PStr ''b''])"
  by (simp add: values_of_def reconciler_defs example_defs)

subsection \<open>First occurrences\<close>

lemma set_first_seen [simp]: "set (first_seen xs) = set xs"
  by (induction xs) auto

lemma distinct_first_seen [simp]: "distinct (first_seen xs)"
  by (induction xs) (auto simp: distinct_removeAll)

lemma first_seen_snoc:
  "first_seen (xs @ [x]) = (if x \<in> set xs then first_seen xs else first_seen xs @ [x])"
  by (induction xs) auto

lemma collect_first_seen:
  "fold (\<lambda>v cs. if P v \<and> v \<notin> set cs then cs @ [v] else cs) vals [] = first_seen (filter P vals)"
proof (induction vals rule: rev_induct)
  case Nil
  show ?case by simp
next
  case (snoc v vals)
  show ?case by (simp add: snoc.IH first_seen_snoc)
qed

subsection \<open>The cover lists\<close>

lemma absorb_attr_covers:
  "covers (absorb_attr data b st)
     = (if b = ''cover'' \<and> truthy (getattr data ''cover'') \<and> getattr data ''cover'' \<notin> set (covers st)
        then covers st @ [getattr data ''cover''] else covers st)"
  by (simp add: absorb_attr_def Let_def)

lemma absorb_attr_big_covers:
  "big_covers (absorb_attr data b st)
     = (if b = ''big_cover'' \<and> truthy (getattr data ''big_cover'')
            \<and> getattr data ''big_cover'' \<notin> set (big_covers st)
        then big_covers st @ [getattr data ''big_cover''] else big_covers st)"
  by (simp add: absorb_attr_def Let_def)

lemma absorb_source_covers:
  "covers (absorb_source as data st)
     = (if ''cover'' \<in> set as \<and> truthy (getattr data ''cover'')
            \<and> getattr data ''cover'' \<notin> set (covers st)
        then covers st @ [getattr data ''cover''] else covers st)"
  unfolding absorb_source_def
  by (induction as arbitrary: st) (auto simp: absorb_attr_covers)

lemma absorb_source_big_covers:
  "big_covers (absorb_source as data st)
     = (if ''big_cover'' \<in> set as \<and> truthy (getattr data ''big_cover'')
            \<and> getattr data ''big_cover'' \<notin> set (big_covers st)
        then big_covers st @ [getattr data ''big_cover''] else big_covers st)"
  unfolding absorb_source_def
  by (induction as arbitrary: st) (auto simp: absorb_attr_big_covers)

lemma walk_covers:
  "''cover'' \<in> set as \<Longrightarrow>
   covers (walk as infos st)
     = fold (\<lambda>v cs. if truthy v \<and> v \<notin> set cs then cs @ [v] else cs) (values_of ''cover'' infos) (covers st)"
  unfolding walk_def values_of_def
  by (induction infos arbitrary: st) (auto simp: absorb_source_covers)

lemma walk_big_covers:
  "''big_cover'' \<in> set as \<Longrightarrow>
   big_covers (walk as infos st)
     = fold (\<lambda>v cs. if truthy v \<and> v \<notin> set cs then cs @ [v] else cs)
         (values_of ''big_cover'' infos) (big_covers st)"
  unfolding walk_def values_of_def
  by (induction infos arbitrary: st) (auto simp: absorb_source_big_covers)

lemma values_of_strip_titles:
  "a \<noteq> ''title'' \<Longrightarrow> values_of a (strip_titles cfg lib all_info) = values_of a all_info"
  by (auto simp: values_of_def strip_titles_def getattr_def setattr_def)

lemma merged_covers:
  "''cover'' \<in> set (attrs lib) \<Longrightarrow>
   covers (merged cfg lib movie all_info) = first_seen (filter truthy (values_of ''cover'' all_info))"
  by (simp add: merged_def walk_covers collect_first_seen values_of_strip_titles)

lemma merged_big_covers:
  "''big_cover'' \<in> set (attrs lib) \<Longrightarrow>
   big_covers (merged cfg lib movie all_info)
     = first_seen (filter truthy (values_of ''big_cover'' all_info))"
  by (simp add: merged_def walk_big_covers collect_first_seen values_of_strip_titles)

lemma javdb_cover_strip_titles:
  "javdb_cover (strip_titles cfg lib all_info) = javdb_cover all_info"
proof -
  have "map_of (map (\<lambda>(name, data). (name, f data)) all_info) k = map_option f (map_of all_info k)"
    for f :: "MovieInfo \<Rightarrow> MovieInfo" and k
    by (induction all_info) auto
  then show ?thesis
    by (auto simp: javdb_cover_def strip_titles_def getattr_def setattr_def split: option.split)
qed

lemma demote_javdb_cases:
  assumes "demote_javdb cfg infos xs = Inr cs"
  shows "(javdb_cover infos = PNone \<or> use_javdb_cover cfg = yes \<longrightarrow> cs = xs)
       \<and> (javdb_cover infos \<noteq> PNone \<and> use_javdb_cover cfg = fallback \<longrightarrow>
             cs = remove1 (javdb_cover infos) xs @ [javdb_cover infos])
       \<and> (javdb_cover infos \<noteq> PNone \<and> use_javdb_cover cfg = no \<longrightarrow>
             cs = remove1 (javdb_cover infos) xs)
       \<and> (distinct xs \<longrightarrow> distinct cs)"
  using assms
  by (cases "use_javdb_cover cfg")
     (auto simp: demote_javdb_def Let_def list_remove_def split: if_splits sum.splits)

text \<open>
  C6, as the code has it. Whenever the merge produces its record, the record holds two
  lists without repetition. The list of high-resolution covers is the list of the
  non-empty \<open>big_cover\<close> values of the sources in priority order, each at its first
  occurrence. The list of covers is the same for the \<open>cover\<close> values, unless the \<open>javdb\<close>
  record has a cover and the configuration demotes it (it is then moved to the end) or
  drops it (it is then removed). The first element of each list, when there is one, is
  the \<open>cover\<close> and the \<open>big_cover\<close> of the record.
\<close>

theorem covers_first_seen:
  assumes "summarize cfg lib movie all_info = Inr fin"
    and "''cover'' \<in> set (attrs lib)" and "''big_cover'' \<in> set (attrs lib)"
  shows "\<exists>cs bcs. getattr fin ''covers'' = PList cs \<and> getattr fin ''big_covers'' = PList bcs
           \<and> distinct cs \<and> distinct bcs
           \<and> bcs = first_seen (filter truthy (values_of ''big_cover'' all_info))
           \<and> (javdb_cover all_info = PNone \<or> use_javdb_cover cfg = yes \<longrightarrow>
                cs = first_seen (filter truthy (values_of ''cover'' all_info)))
           \<and> (javdb_cover all_info \<noteq> PNone \<and> use_javdb_cover cfg = fallback \<longrightarrow>
                cs = remove1 (javdb_cover all_info)
                       (first_seen (filter truthy (values_of ''cover'' all_info)))
                     @ [javdb_cover all_info])
           \<and> (javdb_cover all_info \<noteq> PNone \<and> use_javdb_cover cfg = no \<longrightarrow>
                cs = remove1 (javdb_cover all_info)
                       (first_seen (filter truthy (values_of ''cover'' all_info))))
           \<and> (cs \<noteq> [] \<longrightarrow> getattr fin ''cover'' = hd cs)
           \<and> (bcs \<noteq> [] \<longrightarrow> getattr fin ''big_cover'' = hd bcs)"
proof -
  let ?xs = "first_seen (filter truthy (values_of ''cover'' all_info))"
  let ?bcs = "first_seen (filter truthy (values_of ''big_cover'' all_info))"
  from assms(1) obtain cs f1 where
    d: "demote_javdb cfg (strip_titles cfg lib all_info) (covers (merged cfg lib movie all_info)) = Inr cs"
    and g: "fix_genre movie
       (set_covers cs (big_covers (merged cfg lib movie all_info))
          (resolve_id cfg movie (strip_titles cfg lib all_info)
             (final_info (merged cfg lib movie all_info)))) = Inr f1"
    and n: "normalize_actress cfg lib f1 = Inr fin"
    by (rule summarize_Inr)
  have keep: "getattr fin a = getattr (set_covers cs ?bcs
          (resolve_id cfg movie (strip_titles cfg lib all_info)
             (final_info (merged cfg lib movie all_info)))) a"
    if "a \<in> {''covers'', ''big_covers'', ''cover'', ''big_cover''}" for a
    using that normalize_actress_other[OF n, of a] fix_genre_other[OF g, of a]
    by (auto simp: merged_big_covers[OF assms(3)])
  from demote_javdb_cases[OF d]
  have cases: "javdb_cover all_info = PNone \<or> use_javdb_cover cfg = yes \<longrightarrow> cs = ?xs"
    "javdb_cover all_info \<noteq> PNone \<and> use_javdb_cover cfg = fallback \<longrightarrow>
       cs = remove1 (javdb_cover all_info) ?xs @ [javdb_cover all_info]"
    "javdb_cover all_info \<noteq> PNone \<and> use_javdb_cover cfg = no \<longrightarrow>
       cs = remove1 (javdb_cover all_info) ?xs"
    "distinct cs"
    by (simp_all add: javdb_cover_strip_titles merged_covers[OF assms(2)])
  show ?thesis
    using cases by (intro exI[of _ cs] exI[of _ ?bcs]) (simp add: keep set_covers_fields)
qed

theorem covers_first_seen_witness:
  "summarize ex_cfg ex_lib ex_movie ex_covers = Inr (projr (summarize ex_cfg ex_lib ex_movie ex_covers))
   \<and> ''cover'' \<in> set (attrs ex_lib) \<and> ''big_cover'' \<in> set (attrs ex_lib)
   \<and> javdb_cover ex_covers = PStr ''http://x/db.jpg'' \<and> use_javdb_cover ex_cfg = fallback
   \<and> first_seen (filter truthy (values_of ''cover'' ex_covers))
        = [PStr ''http://x/db.jpg'', PStr ''http://x/bus.jpg'']
   \<and> getattr (projr (summarize ex_cfg ex_lib ex_movie ex_covers)) ''covers''
        = PList [PStr ''http://x/bus.jpg'', PStr ''http://x/db.jpg'']
   \<and> getattr (projr (summarize ex_cfg ex_lib ex_movie ex_covers)) ''cover'' = PStr ''http://x/bus.jpg''
   \<and> getattr (projr (summarize ex_cfg ex_lib ex_movie ex_covers)) ''big_covers''
        = PList [PStr ''http://x/big.jpg'']
   \<and> getattr (projr (summarize ex_cfg ex_lib ex_movie ex_covers)) ''big_cover'' = PStr ''http://x/big.jpg''"
proof -
  let ?fin = "projr (summarize ex_cfg ex_lib ex_movie ex_covers)"
  have s: "summarize ex_cfg ex_lib ex_movie ex_covers = Inr ?fin"
    by (simp add: reconciler_defs example_defs ex_covers_def)
  have a: "''cover'' \<in> set (attrs ex_lib)" "''big_cover'' \<in> set (attrs ex_lib)"
    by (simp_all add: ex_lib_def)
  have j: "javdb_cover ex_covers = PStr ''http://x/db.jpg''" "use_javdb_cover ex_cfg = fallback"
    by (simp_all add: javdb_cover_def getattr_def setattr_def example_defs ex_covers_def)
  have v: "first_seen (filter truthy (values_of ''cover'' ex_covers))
             = [PStr ''http://x/db.jpg'', PStr ''http://x/bus.jpg'']"
    "first_seen (filter truthy (values_of ''big_cover'' ex_covers)) = [PStr ''http://x/big.jpg'']"
    by (simp_all add: values_of_def getattr_def setattr_def example_defs ex_covers_def)
  from covers_first_seen[OF s a] s a j v show ?thesis
    by auto
qed

text \<open>
  The claim as the specification words it fails: \<open>javdb\<close> comes first and its cover is
  seen first, yet with the configured demotion it is the last of the list, and the
  primary cover is the one of \<open>javbus\<close>.
\<close>

theorem javdb_cover_demoted:
  "map fst ex_covers = [''javdb'', ''javbus'']
   \<and> values_of ''cover'' ex_covers = [PStr ''http://x/db.jpg'', PStr ''http://x/bus.jpg'']
   \<and> map_sum id (\<lambda>fin. (getattr fin ''covers'', getattr fin ''cover''))
        (summarize ex_cfg ex_lib ex_movie ex_covers)
       = Inr (PList [PStr ''http://x/bus.jpg'', PStr ''http://x/db.jpg''], PStr ''http://x/bus.jpg'')"
  by (simp add: values_of_def reconciler_defs example_defs ex_covers_def)

subsection \<open>The identifier backed by the most sources\<close>

lemma setdefault_append_keys:
  "map fst (setdefault_append G k n)
     = (if k \<in> fst ` set G then map fst G else map fst G @ [k])"
  by (induction G) (force simp: image_iff)+

lemma setdefault_append_lengths:
  assumes "distinct (map fst G)"
    and "\<forall>(k', ns)\<in>set G. length ns = c k'"
    and "k \<notin> fst ` set G \<longrightarrow> c k = 0"
  shows "\<forall>(k', ns)\<in>set (setdefault_append G k n).
           length ns = (if k' = k then c k' + 1 else c k')"
  using assms
proof (induction G)
  case Nil
  then show ?case by simp
next
  case (Cons g G)
  obtain k0 ns0 where g: "g = (k0, ns0)" by (cases g)
  show ?case
  proof (cases "k0 = k")
    case True
    then show ?thesis
      using Cons.prems unfolding g by (fastforce simp: image_iff)
  next
    case False
    have "\<forall>(k', ns)\<in>set (setdefault_append G k n).
            length ns = (if k' = k then c k' + 1 else c k')"
      using Cons.prems False unfolding g by (intro Cons.IH) auto
    then show ?thesis
      using Cons.prems False unfolding g by auto
  qed
qed

lemma id_weight_groups:
  "map fst (id_weight movie infos) = first_seen (titled_ids movie infos)
   \<and> (\<forall>(k, ns)\<in>set (id_weight movie infos). length ns = count_list (titled_ids movie infos) k)"
proof (induction infos rule: rev_induct)
  case Nil
  show ?case by (simp add: id_weight_def titled_ids_def)
next
  case (snoc nd infos)
  obtain n d where nd: "nd = (n, d)" by (cases nd)
  let ?G = "id_weight movie infos" and ?ids = "titled_ids movie infos"
  show ?case
  proof (cases "truthy (getattr d ''title'')")
    case False
    then show ?thesis
      using snoc.IH by (simp add: nd id_weight_def titled_ids_def)
  next
    case True
    let ?k = "site_id movie d"
    have G': "id_weight movie (infos @ [nd]) = setdefault_append ?G ?k n"
      and ids': "titled_ids movie (infos @ [nd]) = ?ids @ [?k]"
      using True by (simp_all add: nd id_weight_def titled_ids_def)
    have "set (map fst ?G) = set (first_seen ?ids)"
      using snoc.IH by simp
    then have keys: "fst ` set ?G = set ?ids"
      by simp
    have dist: "distinct (map fst ?G)"
      using snoc.IH by simp
    have 1: "map fst (setdefault_append ?G ?k n) = first_seen (?ids @ [?k])"
      using snoc.IH keys by (simp add: setdefault_append_keys first_seen_snoc)
    have "\<forall>(k', ns)\<in>set (setdefault_append ?G ?k n).
            length ns = (if k' = ?k then count_list ?ids k' + 1 else count_list ?ids k')"
      using snoc.IH keys by (intro setdefault_append_lengths[OF dist]) auto
    then have 2: "\<forall>(k', ns)\<in>set (setdefault_append ?G ?k n).
                    length ns = count_list (?ids @ [?k]) k'"
      by auto
    show ?thesis unfolding G' ids' using 1 2 by simp
  qed
qed

lemma sort_key_head:
  fixes f :: "'a \<Rightarrow> int"
  assumes "xs \<noteq> []"
  obtains x rest us vs where "sort_key f xs = x # rest" "xs = us @ x # vs"
    "\<forall>y\<in>set xs. f x \<le> f y" "\<forall>u\<in>set us. f u \<noteq> f x"
proof -
  obtain x rest where s: "sort_key f xs = x # rest"
    using assms by (cases "sort_key f xs") (auto dest: arg_cong[where f = length])
  have "sorted (map f (sort_key f xs))" by (rule sorted_sort_key)
  then have "\<forall>y\<in>set (x # rest). f x \<le> f y" unfolding s by auto
  moreover have "set (x # rest) = set xs"
    using set_sort[of f xs] unfolding s by simp
  ultimately have le: "\<forall>y\<in>set xs. f x \<le> f y"
    by blast
  have "filter (\<lambda>y. f y = f x) xs = filter (\<lambda>y. f y = f x) (x # rest)"
    using sort_key_stable[of f "f x" xs] s by simp
  then have "filter (\<lambda>y. f y = f x) xs = x # filter (\<lambda>y. f y = f x) rest" by simp
  then obtain us vs where "xs = us @ x # vs" "\<forall>u\<in>set us. f u \<noteq> f x"
    unfolding filter_eq_Cons_iff by blast
  then show ?thesis using that s le by blast
qed

lemma takeWhile_removeAll:
  "set (takeWhile P ys) \<subseteq> insert x (set (takeWhile P (removeAll x ys)))"
proof (induction ys)
  case Nil
  show ?case by simp
next
  case (Cons y ys)
  show ?case
  proof (cases "P y")
    case True
    then show ?thesis using Cons.IH by (cases "y = x") auto
  next
    case False
    then show ?thesis by simp
  qed
qed

lemma takeWhile_first_seen:
  "set (takeWhile (\<lambda>x. x \<noteq> w) ids) \<subseteq> set (takeWhile (\<lambda>x. x \<noteq> w) (first_seen ids))"
proof (induction ids)
  case Nil
  show ?case by simp
next
  case (Cons x ids)
  show ?case
  proof (cases "x = w")
    case True
    then show ?thesis by simp
  next
    case False
    have "set (takeWhile (\<lambda>x. x \<noteq> w) ids) \<subseteq> insert x (set (takeWhile (\<lambda>x. x \<noteq> w) (removeAll x (first_seen ids))))"
      using Cons.IH takeWhile_removeAll[of "\<lambda>x. x \<noteq> w" "first_seen ids" x] by blast
    then show ?thesis using False by simp
  qed
qed

text \<open>What the first key of the sorted groups is.\<close>

lemma final_id_majority:
  assumes "sorted_by_len_desc (id_weight movie infos) = (w, srcs) # rest"
  shows "w \<in> set (titled_ids movie infos)
       \<and> (\<forall>v. count_list (titled_ids movie infos) v \<le> count_list (titled_ids movie infos) w)
       \<and> (\<forall>v. v \<noteq> w \<and> count_list (titled_ids movie infos) v = count_list (titled_ids movie infos) w
              \<longrightarrow> v \<notin> set (takeWhile (\<lambda>x. x \<noteq> w) (titled_ids movie infos)))"
proof -
  define G where "G = id_weight movie infos"
  define ids where "ids = titled_ids movie infos"
  define f where "f = (\<lambda>x :: pyval \<times> string list. - int (length (snd x)))"
  have keys: "map fst G = first_seen ids"
    and lens: "\<forall>(k, ns)\<in>set G. length ns = count_list ids k"
    using id_weight_groups[of movie infos] by (simp_all add: G_def ids_def)
  have sorted: "sort_key f G = (w, srcs) # rest"
    using assms by (simp add: sorted_by_len_desc_def G_def f_def)
  then have "G \<noteq> []" by auto
  then obtain x rest' us vs where
    s: "sort_key f G = x # rest'" and split: "G = us @ x # vs"
    and le: "\<forall>y\<in>set G. f x \<le> f y" and first: "\<forall>u\<in>set us. f u \<noteq> f x"
    by (rule sort_key_head)
  have x: "x = (w, srcs)" using sorted s by simp
  have inG: "(w, srcs) \<in> set G" using split x by simp
  have len: "(k, ns) \<in> set G \<Longrightarrow> length ns = count_list ids k" for k ns
    using lens by blast
  have cw: "length srcs = count_list ids w" using len[OF inG] .
  have "set (map fst G) = set (first_seen ids)" using keys by simp
  then have keyset: "fst ` set G = set ids" by simp
  have "fst (w, srcs) \<in> fst ` set G" using inG by (rule imageI)
  then have w_in: "w \<in> set ids" using keyset by simp
  have max: "count_list ids v \<le> count_list ids w" for v
  proof (cases "v \<in> set ids")
    case False
    then show ?thesis by simp
  next
    case True
    then have "v \<in> fst ` set G" using keyset by simp
    then obtain ns where v: "(v, ns) \<in> set G" by auto
    have "f x \<le> f (v, ns)" using le v by blast
    then have "length ns \<le> length srcs" by (simp add: f_def x)
    then show ?thesis using len[OF v] cw by simp
  qed
  have fs: "first_seen ids = map fst us @ w # map fst vs"
    using keys split x by simp
  have "distinct (map fst us @ w # map fst vs)"
    using distinct_first_seen[of ids] unfolding fs .
  then have w_us: "w \<notin> set (map fst us)" by simp
  have tw: "takeWhile (\<lambda>x. x \<noteq> w) (first_seen ids) = map fst us"
  proof -
    have "y \<noteq> w" if "y \<in> set (map fst us)" for y using w_us that by blast
    then have "takeWhile (\<lambda>x. x \<noteq> w) (map fst us @ w # map fst vs)
                 = map fst us @ takeWhile (\<lambda>x. x \<noteq> w) (w # map fst vs)"
      by (rule takeWhile_append2)
    then show ?thesis unfolding fs by simp
  qed
  have tie: "v \<notin> set (takeWhile (\<lambda>x. x \<noteq> w) ids)"
    if "v \<noteq> w" and eq: "count_list ids v = count_list ids w" for v
  proof
    assume "v \<in> set (takeWhile (\<lambda>x. x \<noteq> w) ids)"
    then have "v \<in> set (takeWhile (\<lambda>x. x \<noteq> w) (first_seen ids))"
      using takeWhile_first_seen[of w ids] by blast
    then have "v \<in> set (map fst us)" unfolding tw .
    then obtain ns where vu: "(v, ns) \<in> set us" by auto
    then have "(v, ns) \<in> set G" using split by simp
    then have "length ns = count_list ids v" by (rule len)
    then have "f (v, ns) = f x" using eq cw by (simp add: f_def x)
    moreover have "f (v, ns) \<noteq> f x" using first vu by blast
    ultimately show False by simp
  qed
  show ?thesis using w_in max tie unfolding ids_def by blast
qed


lemma first_seen_Nil_iff: "first_seen xs = [] \<longleftrightarrow> xs = []"
  by (cases xs) simp_all

lemma resolve_id_field:
  assumes "respect_site_avid cfg" and "sorted_by_len_desc (id_weight movie infos) = (w, srcs) # rest"
  shows "getattr (resolve_id cfg movie infos f) (id_field movie) = w"
  using assms by (simp add: resolve_id_def id_field_def getattr_def setattr_def)

text \<open>
  C7. With the resolution of the identifier enabled, whenever the merge produces its
  record and some source has a non-empty title: the identifier of the record (\<open>dvdid\<close>
  when the movie has one, else \<open>cid\<close>) is an identifier \<open>w\<close> returned by one of the
  sources with a title; no identifier is returned by more of those sources than \<open>w\<close>; and
  an identifier returned by as many of them is not returned by any source that comes
  before the first source that returned \<open>w\<close>.
\<close>

theorem site_id_majority:
  assumes "respect_site_avid cfg"
    and "summarize cfg lib movie all_info = Inr fin"
    and "titled_ids movie (strip_titles cfg lib all_info) \<noteq> []"
  shows "getattr fin (id_field movie) \<in> set (titled_ids movie (strip_titles cfg lib all_info))
       \<and> (\<forall>v. count_list (titled_ids movie (strip_titles cfg lib all_info)) v
                \<le> count_list (titled_ids movie (strip_titles cfg lib all_info))
                     (getattr fin (id_field movie)))
       \<and> (\<forall>v. v \<noteq> getattr fin (id_field movie)
              \<and> count_list (titled_ids movie (strip_titles cfg lib all_info)) v
                  = count_list (titled_ids movie (strip_titles cfg lib all_info))
                      (getattr fin (id_field movie))
              \<longrightarrow> v \<notin> set (takeWhile (\<lambda>x. x \<noteq> getattr fin (id_field movie))
                               (titled_ids movie (strip_titles cfg lib all_info))))"
proof -
  define infos where "infos = strip_titles cfg lib all_info"
  have "map fst (id_weight movie infos) \<noteq> []"
    using id_weight_groups[of movie infos] assms(3) by (simp add: infos_def first_seen_Nil_iff)
  then have "sorted_by_len_desc (id_weight movie infos) \<noteq> []"
    by (auto simp: sorted_by_len_desc_def dest: arg_cong[where f = length])
  then obtain w srcs rest where
    sorted: "sorted_by_len_desc (id_weight movie infos) = (w, srcs) # rest"
    by (cases "sorted_by_len_desc (id_weight movie infos)") auto
  from assms(2) obtain cs f1 where
    g: "fix_genre movie
       (set_covers cs (big_covers (merged cfg lib movie all_info))
          (resolve_id cfg movie infos (final_info (merged cfg lib movie all_info)))) = Inr f1"
    and n: "normalize_actress cfg lib f1 = Inr fin"
    unfolding infos_def by (rule summarize_Inr)
  have field: "id_field movie \<noteq> ''genre''" "id_field movie \<noteq> ''actress''"
    "id_field movie \<noteq> ''actress_pics''"
    "id_field movie \<notin> {''covers'', ''big_covers'', ''cover'', ''big_cover''}"
    by (simp_all add: id_field_def)
  have "getattr fin (id_field movie) = getattr f1 (id_field movie)"
    using normalize_actress_other[OF n field(2,3)] .
  also have "\<dots> = getattr (set_covers cs (big_covers (merged cfg lib movie all_info))
          (resolve_id cfg movie infos (final_info (merged cfg lib movie all_info)))) (id_field movie)"
    using fix_genre_other[OF g field(1)] .
  also have "\<dots> = getattr (resolve_id cfg movie infos (final_info (merged cfg lib movie all_info)))
                      (id_field movie)"
    using set_covers_other[OF field(4)] .
  also have "\<dots> = w"
    using resolve_id_field[OF assms(1) sorted] .
  finally have w: "getattr fin (id_field movie) = w" .
  show ?thesis
    unfolding w infos_def[symmetric] using final_id_majority[OF sorted] .
qed

theorem site_id_majority_witness:
  "respect_site_avid ex_cfg
   \<and> summarize ex_cfg ex_lib ex_movie ex_ids = Inr (projr (summarize ex_cfg ex_lib ex_movie ex_ids))
   \<and> titled_ids ex_movie (strip_titles ex_cfg ex_lib ex_ids)
        = [PStr ''ABC-123'', PStr ''ABC-124'', PStr ''ABC-124'']
   \<and> getattr (projr (summarize ex_cfg ex_lib ex_movie ex_ids)) (id_field ex_movie) = PStr ''ABC-124''
   \<and> (\<forall>v. count_list [PStr ''ABC-123'', PStr ''ABC-124'', PStr ''ABC-124''] v
            \<le> count_list [PStr ''ABC-123'', PStr ''ABC-124'', PStr ''ABC-124''] (PStr ''ABC-124''))"
proof -
  let ?fin = "projr (summarize ex_cfg ex_lib ex_movie ex_ids)"
  have r: "respect_site_avid ex_cfg" by (simp add: ex_cfg_def)
  have s: "summarize ex_cfg ex_lib ex_movie ex_ids = Inr ?fin"
    by (simp add: reconciler_defs example_defs ex_ids_def)
  have t: "titled_ids ex_movie (strip_titles ex_cfg ex_lib ex_ids)
             = [PStr ''ABC-123'', PStr ''ABC-124'', PStr ''ABC-124'']"
    by (simp add: titled_ids_def reconciler_defs example_defs ex_ids_def)
  then have ne: "titled_ids ex_movie (strip_titles ex_cfg ex_lib ex_ids) \<noteq> []" by simp
  have w: "getattr ?fin (id_field ex_movie) = PStr ''ABC-124''"
    by (simp add: id_field_def reconciler_defs example_defs ex_ids_def)
  from site_id_majority[OF r s ne] r s t w show ?thesis
    by simp
qed

section \<open>Properties of the Orchestrator\<close>

lemmas orchestrator_defs = parallel_crawler_def correct_kind_def crawl_def start_infos_def
  wrapper_def dict_of_def drop_failed_def strip_keys_def joined_def getattr_def setattr_def
  single_byte

subsection \<open>The attempt loop of a worker\<close>

lemma run_attempts_upt:
  "run_attempts parser [c..<r] (info_before parser rec c) = (i, ok, tr) \<Longrightarrow> c \<le> r \<Longrightarrow>
   (\<exists>m. tr = [c..<m] \<and> c \<le> m \<and> m \<le> r
      \<and> (\<forall>n. c \<le> n \<and> Suc n < m \<longrightarrow> \<not> breaks (outcome_at parser rec n))
      \<and> (m < r \<longrightarrow> c < m \<and> breaks (outcome_at parser rec (m - 1)))
      \<and> (ok \<longleftrightarrow> c < m \<and> outcome_at parser rec (m - 1) = Done)
      \<and> i = info_before parser rec m)"
proof (induction "r - c" arbitrary: c i ok tr)
  case 0
  then show ?case by (intro exI[of _ c]) auto
next
  case (Suc d)
  then have lt: "c < r" by simp
  then have upt: "[c..<r] = c # [Suc c..<r]" by (simp add: upt_conv_Cons)
  obtain out rec' where p: "parser c (info_before parser rec c) = (out, rec')"
    by (cases "parser c (info_before parser rec c)")
  then have o: "outcome_at parser rec c = out" and ib: "info_before parser rec (Suc c) = rec'"
    by (simp_all add: outcome_at_def)
  show ?case
  proof (cases "breaks out")
    case True
    then have "tr = [c]" "ok = (out = Done)" "i = rec'"
      using Suc.prems(1) upt p by (auto simp: breaks_def)
    then show ?thesis using True o lt ib
      by (intro exI[of _ "Suc c"]) auto
  next
    case False
    obtain i2 ok2 tr2 where
      r2: "run_attempts parser [Suc c..<r] (info_before parser rec (Suc c)) = (i2, ok2, tr2)"
      by (metis prod_cases3)
    have res: "i = i2" "ok = ok2" "tr = c # tr2"
      using Suc.prems(1) upt p False r2 ib by (cases out; simp add: breaks_def)+
    have "d = r - Suc c" using Suc.hyps(2) by simp
    from Suc.hyps(1)[OF this r2] lt obtain m where m: "tr2 = [Suc c..<m]" "Suc c \<le> m" "m \<le> r"
      "\<forall>n. Suc c \<le> n \<and> Suc n < m \<longrightarrow> \<not> breaks (outcome_at parser rec n)"
      "m < r \<longrightarrow> Suc c < m \<and> breaks (outcome_at parser rec (m - 1))"
      "ok2 \<longleftrightarrow> Suc c < m \<and> outcome_at parser rec (m - 1) = Done"
      "i2 = info_before parser rec m"
      by auto
    have a: "\<forall>n. c \<le> n \<and> Suc n < m \<longrightarrow> \<not> breaks (outcome_at parser rec n)"
      using m(4) False o by (metis Suc_leI le_neq_implies_less)
    have b: "m < r \<longrightarrow> c < m \<and> breaks (outcome_at parser rec (m - 1))" using m(5) by auto
    have c: "ok \<longleftrightarrow> c < m \<and> outcome_at parser rec (m - 1) = Done"
    proof (cases "m = Suc c")
      case True
      then show ?thesis using m(6) res(2) False o by (auto simp: breaks_def)
    next
      case False
      then show ?thesis using m(2,6) res(2) by auto
    qed
    show ?thesis using m(1,2,3,7) res a b c
      by (intro exI[of _ m]) (auto simp: upt_conv_Cons)
  qed
qed

lemma not_breaks_iff: "\<not> breaks out \<longleftrightarrow> out = RequestException \<or> out = OtherException"
  by (cases out) (simp_all add: breaks_def)

text \<open>
  C5, as the code has it. A worker called with retry count \<open>n\<close> calls the parser at the
  attempts \<open>0, \<dots>, m - 1\<close> for some \<open>m \<le> n\<close>. Every attempt that was followed by another
  one ended in a network error or in an unclassified error: both are retried, and
  success, not-found, duplicate and access-denied are never followed by another attempt.
  The loop stops before the \<open>n\<close>-th attempt only after one of those four outcomes. The
  record is marked exactly when the last attempt succeeded.
\<close>

theorem wrapper_attempts:
  assumes "wrapper parser rec n = (rec', ok, tr)"
  shows "\<exists>m\<le>n. tr = [0..<m]
           \<and> (\<forall>k. Suc k < m \<longrightarrow>
                  outcome_at parser rec k = RequestException \<or> outcome_at parser rec k = OtherException)
           \<and> (m < n \<longrightarrow> 0 < m \<and> breaks (outcome_at parser rec (m - 1)))
           \<and> (ok \<longleftrightarrow> 0 < m \<and> outcome_at parser rec (m - 1) = Done)"
proof -
  have "run_attempts parser [0..<n] (info_before parser rec 0) = (rec', ok, tr)"
    using assms by (simp add: wrapper_def)
  from run_attempts_upt[OF this] show ?thesis
    by (auto simp: not_breaks_iff)
qed

theorem wrapper_attempts_witness:
  "\<exists>m\<le>3. [0, 1] = [0..<m]
           \<and> (\<forall>k. Suc k < m \<longrightarrow>
                  outcome_at flaky_parser blank k = RequestException
                  \<or> outcome_at flaky_parser blank k = OtherException)
           \<and> (m < 3 \<longrightarrow> 0 < m \<and> breaks (outcome_at flaky_parser blank (m - 1)))
           \<and> (True \<longleftrightarrow> 0 < m \<and> outcome_at flaky_parser blank (m - 1) = Done)"
proof -
  have "wrapper flaky_parser blank 3 = (setattr blank ''title'' (PStr ''T''), True, [0, 1])"
    by (simp add: wrapper_def flaky_parser_def eval_nat_numeral)
  from wrapper_attempts[OF this] show ?thesis .
qed

text \<open>
  The claim as the specification words it fails: after an unclassified error at attempt
  0 the parser is called again, and here the second call succeeds.
\<close>

theorem unclassified_error_retried:
  "outcome_at flaky_parser blank 0 = OtherException
   \<and> snd (wrapper flaky_parser blank 3) = (True, [0, 1])"
  by (simp add: wrapper_def flaky_parser_def outcome_at_def eval_nat_numeral)

subsection \<open>The keys of a dictionary\<close>

lemma dict_set_map_fst:
  "map fst (dict_set d k v) = (if k \<in> fst ` set d then map fst d else map fst d @ [k])"
  by (induction d) (force simp: image_iff)+

lemma dict_set_keys: "set (map fst (dict_set d k v)) = insert k (set (map fst d))"
  by (auto simp: dict_set_map_fst)

lemma fold_dict_set_keys:
  "set (map fst (fold (\<lambda>i d. dict_set d i (f i)) xs d)) = set xs \<union> set (map fst d)"
proof (induction xs arbitrary: d)
  case Nil
  show ?case by simp
next
  case (Cons x xs)
  show ?case unfolding fold_simps Cons.IH dict_set_keys by auto
qed

lemma fold_dict_set_pairs_keys:
  "set (map fst (fold (\<lambda>(k, v) d. dict_set d k v) kvs d)) = set (map fst kvs) \<union> set (map fst d)"
proof (induction kvs arbitrary: d)
  case Nil
  show ?case by simp
next
  case (Cons kv kvs)
  obtain k v where kv: "kv = (k, v)" by (cases kv)
  show ?case unfolding kv fold_simps prod.case Cons.IH dict_set_keys by auto
qed

lemma dict_of_keys: "set (map fst (dict_of kvs)) = set (map fst kvs)"
  unfolding dict_of_def fold_dict_set_pairs_keys by simp

lemma map_fst_clear: "map fst (map (\<lambda>(k, i). (k, g i)) xs) = map fst xs"
  by (induction xs) auto

lemma start_infos_keys:
  "set (selection cfg (data_src movie)) \<subseteq> set (map fst (start_infos cfg lib movie))"
proof -
  have "set (map fst (dict_of (map (\<lambda>i. (i, info_of_movie lib movie)) (selection cfg (data_src movie)))))
          = set (selection cfg (data_src movie))"
    unfolding dict_of_keys by (simp add: comp_def)
  then show ?thesis
    unfolding start_infos_def Let_def
    by (simp only: fold_dict_set_keys map_fst_clear split: if_split) blast
qed

lemma crawl_keys: "map fst (crawl cfg lib all_info) = map fst all_info"
  unfolding crawl_def by (induction all_info) (auto split: prod.splits)

lemma joined_keys: "set (selection cfg (data_src movie)) \<subseteq> fst ` set (joined cfg lib movie)"
  using start_infos_keys[of cfg movie lib] crawl_keys[of cfg lib "start_infos cfg lib movie"]
  by (simp add: joined_def del: set_map flip: set_map)

subsection \<open>The correction of the kind\<close>

lemma titles_of_ok:
  "set is \<subseteq> fst ` set all_info \<Longrightarrow>
   \<exists>ts. titles_of all_info is = Inr ts
      \<and> (list_ex truthy ts \<longleftrightarrow>
           (\<exists>i\<in>set is. \<exists>v ok. map_of all_info i = Some (v, ok) \<and> truthy (getattr v ''title'')))"
proof (induction "is")
  case Nil
  then show ?case by simp
next
  case (Cons i rest)
  then obtain ts where ts: "titles_of all_info rest = Inr ts"
    "list_ex truthy ts \<longleftrightarrow>
       (\<exists>i\<in>set rest. \<exists>v ok. map_of all_info i = Some (v, ok) \<and> truthy (getattr v ''title''))"
    by auto
  from Cons.prems have "i \<in> fst ` set all_info" by simp
  then obtain v ok where v: "map_of all_info i = Some (v, ok)"
    by (metis map_of_eq_None_iff not_None_eq surj_pair)
  show ?case using ts v by auto
qed

text \<open>
  C4, as the code has it. For a movie of kind \<open>cid\<close> that also has a \<open>dvdid\<close>, the
  correction after the joins returns, and it looks at the titles of the \<open>cid\<close> sources:
  when one of them has a non-empty title the kind \<open>cid\<close> stays, the \<open>dvdid\<close> is cleared
  and only the records of the \<open>cid\<close> sources are kept; otherwise the movie becomes of
  kind \<open>normal\<close>, its \<open>cid\<close> is cleared and the records of the \<open>cid\<close> sources are dropped.
\<close>

theorem correct_kind_cid:
  assumes "data_src movie = ''cid''" and "truthy_id (dvdid movie)"
  shows "\<exists>movie' infos'.
           correct_kind cfg movie (joined cfg lib movie) = Inr (movie', infos')
           \<and> (if \<exists>i\<in>set (selection cfg ''cid''). \<exists>v ok.
                    map_of (joined cfg lib movie) i = Some (v, ok) \<and> truthy (getattr v ''title'')
              then movie' = movie\<lparr>dvdid := None\<rparr>
                   \<and> infos' = filter (\<lambda>(k, v). k \<in> set (selection cfg ''cid'')) (joined cfg lib movie)
              else movie' = movie\<lparr>data_src := ''normal'', cid := None\<rparr>
                   \<and> infos' = filter (\<lambda>(k, v). k \<notin> set (selection cfg ''cid'')) (joined cfg lib movie))"
proof -
  have "set (selection cfg ''cid'') \<subseteq> fst ` set (joined cfg lib movie)"
    using joined_keys[of cfg movie lib] assms(1) by simp
  from titles_of_ok[OF this] obtain ts where
    ts: "titles_of (joined cfg lib movie) (selection cfg ''cid'') = Inr ts"
    "list_ex truthy ts \<longleftrightarrow>
       (\<exists>i\<in>set (selection cfg ''cid''). \<exists>v ok.
           map_of (joined cfg lib movie) i = Some (v, ok) \<and> truthy (getattr v ''title''))"
    by blast
  show ?thesis
    using assms ts by (auto simp: correct_kind_def)
qed

theorem correct_kind_cid_witness:
  "data_src ex_cid_movie = ''cid'' \<and> truthy_id (dvdid ex_cid_movie)
   \<and> (\<exists>movie' infos'.
        correct_kind ex_cfg ex_cid_movie (joined ex_cfg ex_olib ex_cid_movie) = Inr (movie', infos')
        \<and> movie' = ex_cid_movie\<lparr>dvdid := None\<rparr>
        \<and> map fst infos' = [''fanza''])"
proof -
  have h: "data_src ex_cid_movie = ''cid''" "truthy_id (dvdid ex_cid_movie)"
    by (simp_all add: ex_cid_movie_def ex_movie_def)
  have t: "\<exists>i\<in>set (selection ex_cfg ''cid''). \<exists>v ok.
             map_of (joined ex_cfg ex_olib ex_cid_movie) i = Some (v, ok) \<and> truthy (getattr v ''title'')"
    by (auto simp: orchestrator_defs example_defs ex_olib_def ex_cid_movie_def eval_nat_numeral)
  have k: "map fst (filter (\<lambda>(k, v). k \<in> set (selection ex_cfg ''cid''))
             (joined ex_cfg ex_olib ex_cid_movie)) = [''fanza'']"
    by (simp add: orchestrator_defs example_defs ex_olib_def ex_cid_movie_def eval_nat_numeral)
  from correct_kind_cid[OF h, of ex_cfg ex_olib] t k h show ?thesis
    by auto
qed

text \<open>
  The claim as the specification words it fails: here a source of the standard kind
  (\<open>javbus\<close>) has returned a title, and the movie still stays of kind \<open>cid\<close> with only the
  record of the \<open>cid\<close> source kept, because that source has a title too.
\<close>

theorem standard_title_does_not_reclassify:
  "(\<exists>v ok. map_of (joined ex_cfg ex_olib ex_cid_movie) ''javbus'' = Some (v, ok)
        \<and> truthy (getattr v ''title''))
   \<and> ''javbus'' \<in> set (selection ex_cfg ''normal'')
   \<and> map_sum id (\<lambda>(m, infos). (data_src m, map fst infos))
        (correct_kind ex_cfg ex_cid_movie (joined ex_cfg ex_olib ex_cid_movie))
       = Inr (''cid'', [''fanza''])"
  by (auto simp: orchestrator_defs example_defs ex_olib_def ex_cid_movie_def eval_nat_numeral)

subsection \<open>The keys of the returned records\<close>

text \<open>
  C10 at the input of two sources \<open>javbus\<close> and \<open>javdb\<close> that both succeed: the keys of the
  returned records are the names without their first four characters.
\<close>

theorem parallel_crawler_keys_cut:
  "map_sum id (\<lambda>(m, infos). map fst infos) (parallel_crawler ex_cfg ex_olib ex_movie)
     = Inr [''us'', ''b'']"
  by (simp add: orchestrator_defs example_defs ex_olib_def eval_nat_numeral)

section \<open>Properties of the Namer\<close>

lemmas namer_defs = generate_names_def prepare_def search_def hard_cut_def assign_def place_def
  remaining_of_def set_title_def set_rawtitle_def countdown_def legalize_info_def legalize_path_def
  actress_field_def max_by_len_def single_byte getattr_def setattr_def

lemmas namer_example_defs = example_defs ex_nlib_def ex_named_def ex_record_def strip_spaces_def
  str_of_def ex_no_chunks_def ex_newline_def ex_newline_cfg_def ex_deep_cfg_def

subsection \<open>The dictionary during the search\<close>

lemma set_title_twice [simp]:
  "set_title lib p s (set_title lib p s' c) = set_title lib p s c"
  by (simp add: set_title_def)

lemma set_rawtitle_twice [simp]:
  "set_rawtitle lib p e (set_rawtitle lib p e' c) = set_rawtitle lib p e c"
  by (simp add: set_rawtitle_def)

lemma set_rawtitle_title [simp]:
  "set_rawtitle lib p e (set_title lib p s c) = set_title lib p s (set_rawtitle lib p e c)"
  by (simp add: set_rawtitle_def set_title_def fun_upd_twist)

subsection \<open>The loops as a search for the first combination that fits\<close>

lemma inner_loop_find:
  "inner_loop cfg lib p ss (c, rem) =
     (case find (\<lambda>s. 0 < remaining_of cfg lib p (set_title lib p s c)) ss of
        Some s \<Rightarrow> Returned (assign cfg lib p (set_title lib p s c))
      | None \<Rightarrow>
          Fell_through
            (if ss = [] then (c, rem)
             else (set_title lib p (last ss) c,
                   Some (remaining_of cfg lib p (set_title lib p (last ss) c)))))"
  by (induction ss arbitrary: c rem) (simp_all add: Let_def split: option.split)

lemma find_map: "find P (map f xs) = map_option f (find (P \<circ> f) xs)"
  by (induction xs) simp_all

lemma find_SomeD: "find P xs = Some x \<Longrightarrow> P x \<and> x \<in> set xs"
  by (induction xs) (auto split: if_splits)

lemma find_append:
  "find P (xs @ ys) = (case find P xs of None \<Rightarrow> find P ys | Some x \<Rightarrow> Some x)"
  by (induction xs) simp_all

lemma outer_loop_find:
  "outer_loop cfg lib p es (c, rem) =
     (case find (\<lambda>(e, s). 0 < remaining_of cfg lib p (set_title lib p s (set_rawtitle lib p e c)))
             (List.product es (countdown (length (p_title_break p)))) of
        Some (e, s) \<Rightarrow> Returned (assign cfg lib p (set_title lib p s (set_rawtitle lib p e c)))
      | None \<Rightarrow>
          Fell_through
            (if es = [] then (c, rem)
             else if p_title_break p = [] then (set_rawtitle lib p (last es) c, rem)
             else (set_title lib p 1 (set_rawtitle lib p (last es) c),
                   Some (remaining_of cfg lib p (set_title lib p 1 (set_rawtitle lib p (last es) c))))))"
proof (induction es arbitrary: c rem)
  case Nil
  show ?case by simp
next
  case (Cons e es)
  let ?T = "countdown (length (p_title_break p))"
  have last_T: "p_title_break p \<noteq> [] \<Longrightarrow> last ?T = 1"
    by (cases "length (p_title_break p)") (simp_all add: countdown_def upt_rec)
  have T_Nil: "?T = [] \<longleftrightarrow> p_title_break p = []"
    by (cases "p_title_break p") (simp_all add: countdown_def)
  show ?case
  proof (cases "find (\<lambda>s. 0 < remaining_of cfg lib p (set_title lib p s (set_rawtitle lib p e c))) ?T")
    case (Some s)
    then show ?thesis
      by (simp add: inner_loop_find find_append find_map comp_def split: option.split prod.split)
  next
    case None
    show ?thesis
    proof (cases "p_title_break p = []")
      case True
      then show ?thesis
        using None T_Nil by (simp add: inner_loop_find Cons.IH find_append find_map comp_def split: option.split prod.split)
    next
      case False
      then show ?thesis
        using None T_Nil last_T
        by (simp add: inner_loop_find Cons.IH find_append find_map comp_def split: option.split prod.split)
    qed
  qed
qed

lemma search_find:
  "search cfg lib p =
     (case find (fits cfg lib p) (candidates p) of
        Some (e, s) \<Rightarrow> Returned (assign cfg lib p (shortened lib p e s))
      | None \<Rightarrow>
          Fell_through
            (if p_ori_title_break p = [] then (p_copyd p, None)
             else if p_title_break p = [] then (set_rawtitle lib p 1 (p_copyd p), None)
             else (shortened lib p 1 1, Some (remaining_of cfg lib p (shortened lib p 1 1)))))"
proof -
  let ?O = "countdown (length (p_ori_title_break p))"
  have last_O: "p_ori_title_break p \<noteq> [] \<Longrightarrow> last ?O = 1"
    by (cases "length (p_ori_title_break p)") (simp_all add: countdown_def upt_rec)
  have O_Nil: "?O = [] \<longleftrightarrow> p_ori_title_break p = []"
    by (cases "p_ori_title_break p") (simp_all add: countdown_def)
  have f: "fits cfg lib p = (\<lambda>(e, s). 0 < remaining_of cfg lib p (set_title lib p s (set_rawtitle lib p e (p_copyd p))))"
    by (auto simp: fits_def shortened_def fun_eq_iff)
  show ?thesis
    unfolding search_def outer_loop_find f candidates_def
    using last_O O_Nil by (auto simp: shortened_def split: option.splits)
qed

subsection \<open>The order of the combinations\<close>


lemma countdown_set: "set (countdown n) = {1..n}"
  by (auto simp: countdown_def)



lemma candidates_set:
  "set (candidates p) = {1..length (p_ori_title_break p)} \<times> {1..length (p_title_break p)}"
  by (simp add: candidates_def countdown_set)




subsection \<open>The function returns a plan\<close>

lemma join_strs_ok: "list_all is_str xs \<Longrightarrow> \<exists>s. join_strs xs acc = Inr s"
proof (induction xs arbitrary: acc)
  case Nil
  show ?case by simp
next
  case (Cons x xs)
  then show ?case by (cases x) simp_all
qed

lemma actress_field_ok: "actress_ok (getattr mi ''actress'') \<Longrightarrow> \<exists>s. actress_field cfg mi = Inr s"
proof (cases "getattr mi ''actress''")
  case (PList xs)
  assume "actress_ok (getattr mi ''actress'')"
  then have all: "list_all is_str xs" using PList by simp
  then have "list_all is_str (take (max_actress_count cfg) xs @ [PStr ellipsis])"
    by (auto simp: list_all_iff dest: in_set_takeD)
  then show ?thesis
    using PList all join_strs_ok by (simp add: actress_field_def)
qed (simp_all add: actress_field_def)

lemma prepare_ok:
  assumes "info movie = Some mi" and "actress_ok (getattr mi ''actress'')" and "files movie \<noteq> []"
  shows "\<exists>p. prepare cfg lib movie = Inr p"
proof -
  obtain act where "actress_field cfg mi = Inr act"
    using actress_field_ok[OF assms(2)] by blast
  moreover obtain f0 fs where "files movie = f0 # fs"
    using assms(3) by (cases "files movie") auto
  ultimately show ?thesis
    using assms(1) by (simp add: prepare_def Let_def)
qed

lemma assign_fields:
  "save_dir (assign cfg lib p c) \<noteq> None \<and> basename (assign cfg lib p c) \<noteq> None
   \<and> nfo_file (assign cfg lib p c) \<noteq> None \<and> fanart_file (assign cfg lib p c) \<noteq> None
   \<and> poster_file (assign cfg lib p c) \<noteq> None"
  by (simp add: assign_def legalize_info_def split: prod.split)

lemma hard_cut_after_search:
  "hard_cut cfg lib p (shortened lib p 1 1, Some (remaining_of cfg lib p (shortened lib p 1 1)))
     = Inr (assign cfg lib p (cut_titles cfg lib p))"
  by (simp add: hard_cut_def cut_titles_def Let_def)

text \<open>
  What the function does when the chunk lists are not empty. For an item with an attached
  record whose \<open>actress\<close> is \<open>None\<close> or a list of strings and with at least one file, the
  preparation succeeds. When both chunk lists are non-empty, \<open>generate_names\<close> then
  returns a movie with all five path fields assigned; and when no combination of chunk
  counts fits, the plan is rendered from the one-chunk titles sliced with
  \<open>[:remaining]\<close>, where \<open>remaining\<close> is the budget left by the last combination tried and
  is not positive.
\<close>

lemma generate_names_returns:
  assumes "info movie = Some mi" and "actress_ok (getattr mi ''actress'')" and "files movie \<noteq> []"
  shows "\<exists>p. prepare cfg lib movie = Inr p
           \<and> (p_title_break p \<noteq> [] \<and> p_ori_title_break p \<noteq> [] \<longrightarrow>
                (\<exists>m. generate_names cfg lib movie = Inr m
                   \<and> save_dir m \<noteq> None \<and> basename m \<noteq> None \<and> nfo_file m \<noteq> None
                   \<and> fanart_file m \<noteq> None \<and> poster_file m \<noteq> None
                   \<and> ((\<forall>es\<in>set (candidates p). \<not> fits cfg lib p es) \<longrightarrow>
                        m = assign cfg lib p (cut_titles cfg lib p)
                        \<and> remaining_of cfg lib p (shortened lib p 1 1) \<le> 0)))"
proof -
  obtain p where p: "prepare cfg lib movie = Inr p"
    using prepare_ok[OF assms] by blast
  have "\<exists>m. generate_names cfg lib movie = Inr m
           \<and> save_dir m \<noteq> None \<and> basename m \<noteq> None \<and> nfo_file m \<noteq> None
           \<and> fanart_file m \<noteq> None \<and> poster_file m \<noteq> None
           \<and> ((\<forall>es\<in>set (candidates p). \<not> fits cfg lib p es) \<longrightarrow>
                m = assign cfg lib p (cut_titles cfg lib p)
                \<and> remaining_of cfg lib p (shortened lib p 1 1) \<le> 0)"
    if ne: "p_title_break p \<noteq> []" "p_ori_title_break p \<noteq> []"
  proof (cases "find (fits cfg lib p) (candidates p)")
    case None
    then have nofit: "\<forall>es\<in>set (candidates p). \<not> fits cfg lib p es"
      by (auto simp: find_None_iff)
    have "(1, 1) \<in> set (candidates p)"
      using ne by (cases "p_title_break p"; cases "p_ori_title_break p") (simp_all add: candidates_set)
    then have r: "remaining_of cfg lib p (shortened lib p 1 1) \<le> 0"
      using nofit by (force simp: fits_def)
    have "generate_names cfg lib movie = Inr (assign cfg lib p (cut_titles cfg lib p))"
      using p None ne hard_cut_after_search[of cfg lib p]
      by (simp add: generate_names_def search_find)
    then show ?thesis using r assign_fields by simp
  next
    case (Some es)
    then have "fits cfg lib p es" "es \<in> set (candidates p)"
      by (auto dest: find_SomeD)
    moreover have "generate_names cfg lib movie = Inr (assign cfg lib p (shortened lib p (fst es) (snd es)))"
      using p Some by (simp add: generate_names_def search_find split: prod.split)
    ultimately show ?thesis using assign_fields by auto
  qed
  then show ?thesis using p by blast
qed

lemma generate_names_returns_example:
  "info ex_named \<noteq> None \<and> actress_ok (getattr (the (info ex_named)) ''actress'')
   \<and> files ex_named \<noteq> []
   \<and> (\<exists>p. prepare ex_deep_cfg ex_nlib ex_named = Inr p
         \<and> p_title_break p \<noteq> [] \<and> p_ori_title_break p \<noteq> []
         \<and> (\<forall>es\<in>set (candidates p). \<not> fits ex_deep_cfg ex_nlib p es)
         \<and> (\<exists>m. generate_names ex_deep_cfg ex_nlib ex_named = Inr m
               \<and> m = assign ex_deep_cfg ex_nlib p (cut_titles ex_deep_cfg ex_nlib p)
               \<and> save_dir m \<noteq> None \<and> basename m \<noteq> None \<and> nfo_file m \<noteq> None
               \<and> fanart_file m \<noteq> None \<and> poster_file m \<noteq> None))"
proof -
  let ?p = "projr (prepare ex_deep_cfg ex_nlib ex_named)"
  have i: "info ex_named = Some (the (info ex_named))"
    by (simp add: namer_example_defs)
  have a: "actress_ok (getattr (the (info ex_named)) ''actress'')"
    by (simp add: namer_example_defs getattr_def setattr_def)
  have f: "files ex_named \<noteq> []"
    by (simp add: namer_example_defs)
  have p: "prepare ex_deep_cfg ex_nlib ex_named = Inr ?p"
    by (simp add: namer_defs namer_example_defs)
  have ne: "p_title_break ?p \<noteq> []" "p_ori_title_break ?p \<noteq> []"
    by (simp_all add: namer_defs namer_example_defs)
  have nofit: "\<forall>es\<in>set (candidates ?p). \<not> fits ex_deep_cfg ex_nlib ?p es"
    by (simp add: candidates_def fits_def shortened_def namer_defs namer_example_defs eval_nat_numeral)
  from generate_names_returns[OF i a f, of ex_deep_cfg ex_nlib] p ne nofit i a f
  show ?thesis by auto
qed

text \<open>
  C3 at an item with an attached record and one file whose record carries an empty list
  of title chunks: the body of the inner loop never runs, \<open>remaining\<close> is never assigned,
  and the \<open>else\<close> branch, which is there to force a name, raises when it reads it.
\<close>

theorem generate_names_raises:
  "info ex_no_chunks \<noteq> None \<and> generate_names ex_cfg ex_nlib ex_no_chunks = Inl UnboundLocalError"
  by (simp add: namer_defs namer_example_defs)

subsection \<open>Newlines in the path fields\<close>

lemma legalize_path_no_newline: "CHR 0x0A \<notin> set (legalize_path s)"
  by (simp add: legalize_path_def)

lemma assign_no_newline:
  "\<not> has_newline (save_dir (assign cfg lib p c)) \<and> \<not> has_newline (nfo_file (assign cfg lib p c))
   \<and> \<not> has_newline (fanart_file (assign cfg lib p c))
   \<and> \<not> has_newline (poster_file (assign cfg lib p c))"
  by (simp add: assign_def legalize_info_def has_newline_def legalize_path_no_newline split: prod.split)

lemma generate_names_is_assign:
  "generate_names cfg lib movie = Inr m \<Longrightarrow> \<exists>p c. m = assign cfg lib p c"
  by (auto simp: generate_names_def search_find hard_cut_def Let_def
           split: sum.splits option.splits prod.splits if_splits)

text \<open>
  The four fields that \<open>legalize_info\<close> rewrites hold no newline whenever
  \<open>generate_names\<close> returns.
\<close>

lemma legalized_fields_no_newline:
  assumes "generate_names cfg lib movie = Inr m"
  shows "\<not> has_newline (save_dir m) \<and> \<not> has_newline (nfo_file m)
         \<and> \<not> has_newline (fanart_file m) \<and> \<not> has_newline (poster_file m)"
  using generate_names_is_assign[OF assms] assign_no_newline by blast

text \<open>
  C9 at a title with a newline inside and a base-name template that uses the title: the
  newline is taken out of the directory and stays in the base name.
\<close>

theorem basename_keeps_newline:
  "map_sum id (\<lambda>m. (save_dir m, basename m)) (generate_names ex_newline_cfg ex_nlib ex_newline)
     = Inr (Some ''out/FooBar'', Some (''ABC-123 Foo'' @ [CHR 0x0A] @ ''Bar''))"
  by (simp add: namer_defs namer_example_defs)

end
